theory Spec2Isabelle
  imports Main "HOL-Library.Sublist" "HOL-Library.Multiset"
begin

section \<open>Python values and string operations\<close>

text \<open>
  A Python \<open>str\<close> is modelled as a \<open>string\<close>; a character stands for a code point
  below 256. The markers, keys and fences of the program are all ASCII.

  Exceptions are values: a function that can raise returns \<open>py_exception + 'a\<close>,
  with \<open>Inl\<close> for the exception that leaves the function.
\<close>

datatype py_exception =
    TypeError | AttributeError | KeyError | ValueError | RecursionError | JSONDecodeError

text \<open>
  The values \<open>json.loads\<close> can return. A finite float is \<open>Finite m e\<close>, the number
  \<open>m * 2 ^ e\<close>; a dictionary is an association list in insertion order.
\<close>

datatype pyfloat = Finite int int | Inf bool | NaN

datatype json =
    JNull
  | JBool bool
  | JInt int
  | JFloat pyfloat
  | JString string
  | JList "json list"
  | JObject "(string \<times> json) list"

definition py_bind :: "'e + 'a \<Rightarrow> ('a \<Rightarrow> 'e + 'b) \<Rightarrow> 'e + 'b" where
  "py_bind m f = (case m of Inl err \<Rightarrow> Inl err | Inr v \<Rightarrow> f v)"

text \<open>\<open>key in data\<close> for a string key: membership in a dictionary's keys, equality
  with an element of a list, substring of a string; any other value is not iterable.\<close>

fun py_contains :: "string \<Rightarrow> json \<Rightarrow> py_exception + bool" where
  "py_contains key (JObject kvs) = Inr (key \<in> set (map fst kvs))"
| "py_contains key (JList xs) = Inr (JString key \<in> set xs)"
| "py_contains key (JString s) = Inr (sublist key s)"
| "py_contains key _ = Inl TypeError"

text \<open>\<open>data.get(key)\<close>: only a dictionary has the method; a missing key gives \<open>None\<close>.\<close>

fun py_get :: "json \<Rightarrow> string \<Rightarrow> py_exception + json" where
  "py_get (JObject kvs) key = Inr (case map_of kvs key of None \<Rightarrow> JNull | Some v \<Rightarrow> v)"
| "py_get _ key = Inl AttributeError"

text \<open>\<open>data[key]\<close> for a string key.\<close>

fun py_getitem :: "json \<Rightarrow> string \<Rightarrow> py_exception + json" where
  "py_getitem (JObject kvs) key = (case map_of kvs key of None \<Rightarrow> Inl KeyError | Some v \<Rightarrow> Inr v)"
| "py_getitem _ key = Inl TypeError"

text \<open>\<open>data[key] = v\<close> for a string key: an existing key keeps its position.\<close>

fun py_setitem :: "json \<Rightarrow> string \<Rightarrow> json \<Rightarrow> py_exception + json" where
  "py_setitem (JObject kvs) key v =
     Inr (JObject (if key \<in> set (map fst kvs)
                   then map (\<lambda>(k, w). if k = key then (k, v) else (k, w)) kvs
                   else kvs @ [(key, v)]))"
| "py_setitem _ key v = Inl TypeError"

text \<open>The elements a \<open>for\<close> loop visits.\<close>

fun py_iter :: "json \<Rightarrow> py_exception + json list" where
  "py_iter (JList xs) = Inr xs"
| "py_iter (JObject kvs) = Inr (map (\<lambda>(k, v). JString k) kvs)"
| "py_iter (JString s) = Inr (map (\<lambda>c. JString [c]) s)"
| "py_iter _ = Inl TypeError"

fun is_list :: "json \<Rightarrow> bool" where
  "is_list (JList xs) = True"
| "is_list _ = False"

fun is_dict :: "json \<Rightarrow> bool" where
  "is_dict (JObject kvs) = True"
| "is_dict _ = False"

text \<open>Truth value of an optional JSON value (\<open>None\<close> is \<open>None\<close> of the option).\<close>

fun truthy :: "json \<Rightarrow> bool" where
  "truthy JNull = False"
| "truthy (JBool b) = b"
| "truthy (JInt i) = (i \<noteq> 0)"
| "truthy (JFloat (Finite m e)) = (m \<noteq> 0)"
| "truthy (JFloat _) = True"
| "truthy (JString s) = (s \<noteq> [])"
| "truthy (JList xs) = (xs \<noteq> [])"
| "truthy (JObject kvs) = (kvs \<noteq> [])"

definition py_not :: "json option \<Rightarrow> bool" where
  "py_not v = (case v of None \<Rightarrow> True | Some d \<Rightarrow> \<not> truthy d)"

text \<open>\<open>s.find(sub)\<close>: the lowest index at which \<open>sub\<close> occurs, or \<open>-1\<close>.\<close>

fun str_find :: "string \<Rightarrow> string \<Rightarrow> int" where
  "str_find [] sub = (if sub = [] then 0 else - 1)"
| "str_find (c # cs) sub =
     (if prefix sub (c # cs) then 0
      else (let r = str_find cs sub in if r = - 1 then - 1 else r + 1))"

text \<open>\<open>s.replace(old, new)\<close> for a non-empty \<open>old\<close>: the occurrences are replaced from
  left to right and do not overlap.\<close>

function str_replace :: "string \<Rightarrow> string \<Rightarrow> string \<Rightarrow> string" where
  "str_replace [] old new = []"
| "str_replace (c # cs) old new =
     (if old \<noteq> [] \<and> prefix old (c # cs)
      then new @ str_replace (drop (length old) (c # cs)) old new
      else c # str_replace cs old new)"
  by pat_completeness auto
termination
  by (relation "measure (\<lambda>(s, old, new). length s)") auto

text \<open>\<open>sep.join(parts)\<close>.\<close>

fun str_join :: "string \<Rightarrow> string list \<Rightarrow> string" where
  "str_join sep [] = []"
| "str_join sep [x] = x"
| "str_join sep (x # y # ys) = x @ sep @ str_join sep (y # ys)"

text \<open>\<open>c.isspace()\<close>, which is what \<open>\s\<close> matches in a \<open>str\<close> pattern.\<close>

definition isspace :: "char \<Rightarrow> bool" where
  "isspace c =
     (let n = (of_char c :: nat)
      in (9 \<le> n \<and> n \<le> 13) \<or> (28 \<le> n \<and> n \<le> 32) \<or> n = 133 \<or> n = 160)"

section \<open>Extraction of the JSON text (both regular expressions)\<close>

text \<open>
  \<open>re.search(r'```json\s*(\{.*?\})\s*```', s, re.DOTALL)\<close>: the leftmost position
  where the fence and language tag stand, followed by white space and an opening brace;
  from there the shortest text that ends in a closing brace followed by white space and
  the closing fence. Neither \<open>{\<close> nor the back quote is white space, so \<open>\s*\<close> can
  only match the whole run of white space. \<open>search_fenced\<close> is group 1 of the match.
\<close>

fun lazy_body :: "string \<Rightarrow> string option" where
  "lazy_body [] = None"
| "lazy_body (c # cs) =
     (if c = CHR ''}'' \<and> prefix ''```'' (dropWhile isspace cs) then Some [c]
      else map_option ((#) c) (lazy_body cs))"

definition match_fenced :: "string \<Rightarrow> string option" where
  "match_fenced s =
     (if prefix ''```json'' s
      then (case dropWhile isspace (drop 7 s) of
              [] \<Rightarrow> None
            | c # rest \<Rightarrow>
                if c = CHR ''{'' then map_option ((#) c) (lazy_body rest) else None)
      else None)"

fun search_fenced :: "string \<Rightarrow> string option" where
  "search_fenced [] = None"
| "search_fenced (c # cs) =
     (case match_fenced (c # cs) of Some g \<Rightarrow> Some g | None \<Rightarrow> search_fenced cs)"

text \<open>
  \<open>re.search(r'\{.*\}', s, re.DOTALL)\<close>: from the first opening brace to the last
  closing brace after it. \<open>search_braces\<close> is group 0 of the match.
\<close>

definition search_braces :: "string \<Rightarrow> string option" where
  "search_braces s =
     (case dropWhile (\<lambda>c. c \<noteq> CHR ''{'') s of
        [] \<Rightarrow> None
      | b # rest \<Rightarrow>
          if CHR ''}'' \<in> set rest
          then Some (b # rev (dropWhile (\<lambda>c. c \<noteq> CHR ''}'') (rev rest)))
          else None)"

section \<open>validate_json (diagram_generator.py and app.py)\<close>

text \<open>
  \<open>json.loads\<close> belongs to the standard library and is a parameter \<open>json_loads\<close>:
  \<open>Inr v\<close> when the text decodes to \<open>v\<close>, \<open>Inl e\<close> when it raises \<open>e\<close>. On
  invalid text that is \<open>JSONDecodeError\<close>, the one exception the \<open>except\<close> clause
  catches; the decoder also raises \<open>ValueError\<close> (an integer literal beyond the digit
  limit) and \<open>RecursionError\<close> (deep nesting), and these leave the function.

  The text handed to the decoder: group 1 of the fenced match, else the brace match,
  else the input itself.
\<close>

definition extract_json :: "string \<Rightarrow> string" where
  "extract_json json_str =
     (case search_fenced json_str of
        Some g \<Rightarrow> g
      | None \<Rightarrow> (case search_braces json_str of Some g \<Rightarrow> g | None \<Rightarrow> json_str))"

text \<open>The loop over \<open>required_fields\<close>: does the function return \<open>None\<close> there?\<close>

fun missing_field :: "string list \<Rightarrow> json \<Rightarrow> py_exception + bool" where
  "missing_field [] data = Inr False"
| "missing_field (field # fields) data =
     py_bind (py_contains field data)
       (\<lambda>present. if \<not> present then Inr True else missing_field fields data)"

text \<open>The bodies of the two loops over nodes and edges; \<open>or\<close> evaluates \<open>in\<close> on
  dictionaries only.\<close>

fun has_key :: "string \<Rightarrow> json \<Rightarrow> bool" where
  "has_key key (JObject kvs) = (key \<in> set (map fst kvs))"
| "has_key key _ = False"

definition bad_node :: "json \<Rightarrow> bool" where
  "bad_node node = (\<not> is_dict node \<or> \<not> has_key ''id'' node)"

definition bad_edge :: "json \<Rightarrow> bool" where
  "bad_edge edge = (\<not> is_dict edge \<or> \<not> has_key ''source'' edge \<or> \<not> has_key ''target'' edge)"

text \<open>The body of the \<open>try\<close> block after \<open>json.loads\<close>. \<open>Inr None\<close> is
  \<open>return None\<close>, \<open>Inr (Some data)\<close> is \<open>return data\<close>.\<close>

definition validate_data :: "json \<Rightarrow> py_exception + json option" where
  "validate_data data =
     py_bind (py_contains ''participants'' data) (\<lambda>has_participants.
     py_bind (if has_participants then py_contains ''events'' data else Inr False) (\<lambda>is_sequence.
     if is_sequence then
       py_bind (py_get data ''participants'') (\<lambda>participants.
       if \<not> is_list participants then Inr None
       else py_bind (py_get data ''events'') (\<lambda>events.
            if \<not> is_list events then Inr None else Inr (Some data)))
     else
       py_bind (py_contains ''mermaid_syntax'' data) (\<lambda>has_mermaid.
       if has_mermaid then Inr (Some data)
       else
         py_bind (missing_field [''nodes'', ''hierarchy'', ''edges''] data) (\<lambda>missing.
         if missing then Inr None
         else py_bind (py_get data ''nodes'') (\<lambda>nodes.
         if \<not> is_list nodes then Inr None
         else py_bind (py_bind (py_getitem data ''nodes'') py_iter) (\<lambda>node_list.
         if list_ex bad_node node_list then Inr None
         else py_bind (py_get data ''edges'') (\<lambda>edges.
         if \<not> is_list edges then Inr None
         else py_bind (py_bind (py_getitem data ''edges'') py_iter) (\<lambda>edge_list.
         if list_ex bad_edge edge_list then Inr None
         else Inr (Some data)))))))))"

definition validate_json ::
  "(string \<Rightarrow> py_exception + json) \<Rightarrow> string \<Rightarrow> py_exception + json option" where
  "validate_json json_loads json_str =
     (case json_loads (extract_json json_str) of
        Inl err \<Rightarrow> if err = JSONDecodeError then Inr None else Inl err
      | Inr data \<Rightarrow> validate_data data)"

section \<open>inject_data_into_html (diagram_generator.py and app.py)\<close>

definition start_marker :: string where
  "start_marker = ''/* [INJECTION_START] */''"

definition end_marker :: string where
  "end_marker = ''/* [INJECTION_END] */''"

text \<open>\<open>json_str.replace("</", "<\\/")\<close>; the replacement is \<open><\<close>, a backslash, \<open>/\<close>.\<close>

definition escape_close_tags :: "string \<Rightarrow> string" where
  "escape_close_tags dumped = str_replace dumped ''</'' (''<'' @ [CHR 0x5C] @ ''/'')"

definition new_block :: "string \<Rightarrow> string" where
  "new_block json_str =
     start_marker @ ''\<newline>            const architectureData = '' @ json_str
       @ '';\<newline>            '' @ end_marker"

text \<open>
  \<open>json.dumps(json_data, indent=2)\<close> is the parameter \<open>json_dumps\<close>; it raises
  \<open>TypeError\<close> on data that is not serializable. When a marker is missing the source
  prints a message (\<open>st.error\<close> in app.py) and returns the template as it is.
\<close>

definition inject_data_into_html ::
  "('d \<Rightarrow> py_exception + string) \<Rightarrow> string \<Rightarrow> 'd \<Rightarrow> py_exception + string" where
  "inject_data_into_html json_dumps html_content json_data =
     (case json_dumps json_data of
        Inl err \<Rightarrow> Inl err
      | Inr dumped \<Rightarrow>
          (let json_str = escape_close_tags dumped;
               start_idx = str_find html_content start_marker;
               end_idx = str_find html_content end_marker
           in if start_idx \<noteq> - 1 \<and> end_idx \<noteq> - 1
              then (let pre_content = take (nat start_idx) html_content;
                        post_content =
                          drop (nat (end_idx + int (length end_marker))) html_content
                    in Inr (pre_content @ new_block json_str @ post_content))
              else Inr html_content))"

section \<open>The retrieval pipeline (agent/rag_pipeline.py)\<close>

text \<open>
  \<open>files\<close> is a dictionary from path to file data, in insertion order; its keys are
  distinct. A document carries its text and the metadata dictionary, whose keys
  \<open>chunk_index\<close> and \<open>total_chunks\<close> exist for the chunks of a split file only.
\<close>

record file_data =
  content :: string
  fsize :: int

type_synonym files = "(string \<times> file_data) list"

record doc_metadata =
  source :: string
  file_type :: string
  doc_size :: int
  directory :: string
  filename :: string
  chunk_index :: "nat option"
  total_chunks :: "nat option"

record document =
  page_content :: string
  metadata :: doc_metadata

text \<open>
  What the pipeline takes from its libraries: \<open>pathlib\<close> (the lower-cased suffix, the
  parent and the name of a path), the configured \<open>RecursiveCharacterTextSplitter\<close>
  (\<open>split_text\<close>) and the vector store. The store is the list of the documents it
  indexes; \<open>rank query docs\<close> is the order in which the store returns \<open>docs\<close> for
  \<open>query\<close>, most similar first.
\<close>

record library =
  path_suffix_lower :: "string \<Rightarrow> string"
  path_parent :: "string \<Rightarrow> string"
  path_name :: "string \<Rightarrow> string"
  split_text :: "string \<Rightarrow> string list"
  rank :: "string \<Rightarrow> document list \<Rightarrow> document list"

record rag_pipeline =
  vectorstore :: "document list option"

definition type_mapping :: "(string \<times> string) list" where
  "type_mapping =
     [(''.py'', ''python''),
      (''.js'', ''javascript''), (''.jsx'', ''javascript''),
      (''.ts'', ''typescript''), (''.tsx'', ''typescript''),
      (''.java'', ''java''),
      (''.go'', ''go''),
      (''.rs'', ''rust''),
      (''.rb'', ''ruby''),
      (''.php'', ''php''),
      (''.c'', ''c''), (''.cpp'', ''cpp''), (''.h'', ''c_header''), (''.hpp'', ''cpp_header''),
      (''.cs'', ''csharp''),
      (''.swift'', ''swift''),
      (''.kt'', ''kotlin''),
      (''.scala'', ''scala''),
      (''.html'', ''html''), (''.css'', ''css''), (''.scss'', ''scss''),
      (''.json'', ''json''), (''.yaml'', ''yaml''), (''.yml'', ''yaml''), (''.toml'', ''toml''),
      (''.md'', ''markdown''), (''.txt'', ''text''), (''.rst'', ''rst''),
      (''.sql'', ''sql''),
      (''.sh'', ''shell''), (''.bash'', ''shell''),
      (''.dockerfile'', ''dockerfile'')]"

definition get_file_type :: "library \<Rightarrow> string \<Rightarrow> string" where
  "get_file_type lib file_path =
     (case map_of type_mapping (path_suffix_lower lib file_path) of
        None \<Rightarrow> ''unknown''
      | Some t \<Rightarrow> t)"

text \<open>The documents of one file (the body of the loop of \<open>_create_documents\<close>).\<close>

definition file_documents :: "library \<Rightarrow> string \<Rightarrow> file_data \<Rightarrow> document list" where
  "file_documents lib file_path data =
     (let meta = \<lparr>source = file_path,
                  file_type = get_file_type lib file_path,
                  doc_size = fsize data,
                  directory = path_parent lib file_path,
                  filename = path_name lib file_path,
                  chunk_index = None,
                  total_chunks = None\<rparr>
      in if length (content data) > 1500
         then (let chunks = split_text lib (content data)
               in map (\<lambda>(i, chunk).
                         \<lparr>page_content = chunk,
                          metadata = meta\<lparr>chunk_index := Some i,
                                          total_chunks := Some (length chunks)\<rparr>\<rparr>)
                      (enumerate 0 chunks))
         else [\<lparr>page_content = content data, metadata = meta\<rparr>])"

definition create_documents :: "library \<Rightarrow> files \<Rightarrow> document list" where
  "create_documents lib fs = concat (map (\<lambda>(file_path, data). file_documents lib file_path data) fs)"

text \<open>\<open>build_index\<close> returns the pipeline holding the new store and the number of
  documents, or raises \<open>ValueError("No documents to index")\<close>. The store is that of
  the first build of a process; a later build under the same collection name is not
  modelled.\<close>

definition build_index :: "library \<Rightarrow> rag_pipeline \<Rightarrow> files \<Rightarrow> py_exception + (nat \<times> rag_pipeline)" where
  "build_index lib self fs =
     (let documents = create_documents lib fs
      in if documents = [] then Inl ValueError
         else Inr (length documents, self\<lparr>vectorstore := Some documents\<rparr>))"

text \<open>\<open>similarity_search(query, k, filter)\<close>: the \<open>k\<close> best of the documents that pass
  the filter; the only filter the program uses is \<open>{'source': path}\<close>, and every
  \<open>k\<close> it passes is positive (what the store does with \<open>k = 0\<close> is not modelled).\<close>

definition similarity_search ::
  "library \<Rightarrow> document list \<Rightarrow> string \<Rightarrow> nat \<Rightarrow> string option \<Rightarrow> document list" where
  "similarity_search lib store q k filter_dict =
     take k (rank lib q
       (case filter_dict of
          None \<Rightarrow> store
        | Some path \<Rightarrow> filter (\<lambda>d. source (metadata d) = path) store))"

definition query ::
  "library \<Rightarrow> rag_pipeline \<Rightarrow> string \<Rightarrow> nat \<Rightarrow> string option \<Rightarrow> py_exception + document list" where
  "query lib self q k filter_dict =
     (case vectorstore self of
        None \<Rightarrow> Inl ValueError
      | Some store \<Rightarrow> Inr (similarity_search lib store q k filter_dict))"

definition chunk_key :: "document \<Rightarrow> nat" where
  "chunk_key d = (case chunk_index (metadata d) of None \<Rightarrow> 0 | Some i \<Rightarrow> i)"

definition get_file_context :: "library \<Rightarrow> rag_pipeline \<Rightarrow> string \<Rightarrow> py_exception + string" where
  "get_file_context lib self file_path =
     py_bind (query lib self (''file: '' @ file_path) 20 (Some file_path)) (\<lambda>results.
       let sorted_results = sort_key chunk_key results
       in Inr (str_join ''\<newline>'' (map page_content sorted_results)))"

definition queries :: "string list" where
  "queries =
     [''main entry point application initialization'',
      ''API routes endpoints handlers'',
      ''database models schema'',
      ''configuration settings environment'',
      ''core business logic services'',
      ''imports dependencies modules'']"

text \<open>The two nested loops of \<open>get_architecture_context\<close>, on the pair
  \<open>(all_docs, seen_sources)\<close>.\<close>

definition add_doc :: "document list \<times> string set \<Rightarrow> document \<Rightarrow> document list \<times> string set" where
  "add_doc acc doc =
     (case acc of (all_docs, seen_sources) \<Rightarrow>
        if source (metadata doc) \<notin> seen_sources
        then (all_docs @ [doc], insert (source (metadata doc)) seen_sources)
        else (all_docs, seen_sources))"

fun merge_queries ::
  "library \<Rightarrow> rag_pipeline \<Rightarrow> nat \<Rightarrow> string list \<Rightarrow> document list \<times> string set
     \<Rightarrow> py_exception + (document list \<times> string set)" where
  "merge_queries lib self k [] acc = Inr acc"
| "merge_queries lib self k (q # qs) acc =
     py_bind (query lib self q k None) (\<lambda>results.
       merge_queries lib self k qs (foldl add_doc acc results))"

definition format_doc :: "document \<Rightarrow> string" where
  "format_doc doc =
     ''=== '' @ source (metadata doc) @ '' ===\<newline>'' @ page_content doc @ ''\<newline>''"

definition architecture_docs :: "library \<Rightarrow> rag_pipeline \<Rightarrow> nat \<Rightarrow> py_exception + document list" where
  "architecture_docs lib self k =
     py_bind (merge_queries lib self k queries ([], {})) (\<lambda>(all_docs, seen_sources).
       Inr (take 15 all_docs))"

definition get_architecture_context :: "library \<Rightarrow> rag_pipeline \<Rightarrow> nat \<Rightarrow> py_exception + string" where
  "get_architecture_context lib self k =
     py_bind (architecture_docs lib self k) (\<lambda>docs.
       Inr (str_join ''\<newline>'' (map format_doc docs)))"

section \<open>The analysis agent (agent/repo_agent.py)\<close>

text \<open>
  The repository data the fetcher hands over; \<open>description\<close> and \<open>language\<close> are
  read with \<open>get\<close> and a default, so they may be missing. A diagram specification is a
  dictionary of strings.
\<close>

record repo_data =
  name :: string
  full_name :: string
  description :: "string option"
  language :: "string option"
  files :: files

type_synonym diagram_spec = "(string \<times> string) list"

text \<open>
  What the agent takes from outside: the decoder and the serializer of the \<open>json\<close>
  module (\<open>json.dumps(x, indent=2)\<close>), the model call \<open>_call_llm(prompt, system_prompt)\<close>,
  the tree rendering \<open>get_file_structure\<close>, and the prompt templates of
  agent/prompts.py, each a function of the fields that \<open>format\<close> fills in, in the
  order of the call.
\<close>

record services =
  json_loads :: "string \<Rightarrow> py_exception + json"
  json_dumps :: "json \<Rightarrow> string"
  llm :: "string \<Rightarrow> string \<Rightarrow> string"
  get_file_structure :: "files \<Rightarrow> string"
  ANALYSIS_SYSTEM_PROMPT :: string
  REPO_OVERVIEW_PROMPT :: "string \<Rightarrow> string \<Rightarrow> string \<Rightarrow> string \<Rightarrow> string \<Rightarrow> string"
  SEQUENCE_FROM_REPO_PROMPT :: "string \<Rightarrow> string \<Rightarrow> string \<Rightarrow> string"
  MINDMAP_FROM_REPO_PROMPT :: "string \<Rightarrow> string \<Rightarrow> string \<Rightarrow> string \<Rightarrow> string"
  GRAPH_FROM_REPO_PROMPT :: "string \<Rightarrow> string \<Rightarrow> string \<Rightarrow> string"

record agent =
  rag :: rag_pipeline
  repo_data :: "repo_data option"
  overview :: "json option"
  diagram_plan :: "json option"

text \<open>\<open>return json.loads(text)\<close> under \<open>except json.JSONDecodeError: return None\<close>:
  any other exception of the decoder is not caught.\<close>

definition loads_or_none :: "services \<Rightarrow> string \<Rightarrow> py_exception + json option" where
  "loads_or_none sv text =
     (case json_loads sv text of
        Inl err \<Rightarrow> if err = JSONDecodeError then Inr None else Inl err
      | Inr v \<Rightarrow> Inr (Some v))"

text \<open>\<open>_parse_json_response\<close>: \<open>None\<close> when nothing matches or the decoder raises
  \<open>JSONDecodeError\<close>.\<close>

definition parse_json_response :: "services \<Rightarrow> string \<Rightarrow> py_exception + json option" where
  "parse_json_response sv response =
     (case search_fenced response of
        Some g \<Rightarrow> loads_or_none sv g
      | None \<Rightarrow>
          (case search_braces response of Some g \<Rightarrow> loads_or_none sv g | None \<Rightarrow> Inr None))"

definition fallback_overview :: "string \<Rightarrow> json" where
  "fallback_overview response =
     JObject [(''project_type'', JString ''unknown''),
              (''architecture_pattern'', JString ''unknown''),
              (''components'', JList []),
              (''raw_analysis'', JString response)]"

text \<open>The prompt of the overview stage and the model's answer to it.\<close>

definition overview_response :: "services \<Rightarrow> repo_data \<Rightarrow> string \<Rightarrow> string" where
  "overview_response sv rd code_context =
     (let file_structure = get_file_structure sv (files rd);
          prompt = REPO_OVERVIEW_PROMPT sv (full_name rd)
                     (case description rd of None \<Rightarrow> ''No description'' | Some d \<Rightarrow> d)
                     (case language rd of None \<Rightarrow> ''Unknown'' | Some l \<Rightarrow> l)
                     (take 3000 file_structure)
                     (take 8000 code_context)
      in llm sv prompt (ANALYSIS_SYSTEM_PROMPT sv))"

text \<open>\<open>analyze_overview\<close> returns the overview and the agent that stores it.\<close>

definition analyze_overview :: "library \<Rightarrow> services \<Rightarrow> agent \<Rightarrow> py_exception + (json \<times> agent)" where
  "analyze_overview lib sv self =
     (case repo_data self of
        None \<Rightarrow> Inl ValueError
      | Some rd \<Rightarrow>
          py_bind (get_architecture_context lib (rag self) 8) (\<lambda>code_context.
            let response = overview_response sv rd code_context
            in py_bind (parse_json_response sv response) (\<lambda>parsed.
                 let result = (case parsed of
                                 None \<Rightarrow> fallback_overview response
                               | Some d \<Rightarrow>
                                   if py_not parsed then fallback_overview response else d)
                 in Inr (result, self\<lparr>overview := Some result\<rparr>))))"

text \<open>\<open>data.get(key, default)\<close>.\<close>

fun py_get_default :: "json \<Rightarrow> string \<Rightarrow> json \<Rightarrow> py_exception + json" where
  "py_get_default (JObject kvs) key dflt =
     Inr (case map_of kvs key of None \<Rightarrow> dflt | Some v \<Rightarrow> v)"
| "py_get_default _ key dflt = Inl AttributeError"

definition spec_get :: "diagram_spec \<Rightarrow> string \<Rightarrow> string \<Rightarrow> string" where
  "spec_get diagram_spec key dflt =
     (case map_of diagram_spec key of None \<Rightarrow> dflt | Some v \<Rightarrow> v)"

text \<open>The \<open>if\<close>/\<open>elif\<close> chain of \<open>generate_diagram_data\<close> that builds the prompt.
  \<open>self.repo_data['full_name']\<close> raises \<open>TypeError\<close> when no repository was ingested.\<close>

definition diagram_prompt ::
  "library \<Rightarrow> services \<Rightarrow> agent \<Rightarrow> string \<Rightarrow> string \<Rightarrow> string \<Rightarrow> py_exception + string" where
  "diagram_prompt lib sv self diagram_type focus_area code_context =
     (if diagram_type = ''Sequence'' then
        (case repo_data self of
           None \<Rightarrow> Inl TypeError
         | Some rd \<Rightarrow>
             Inr (SEQUENCE_FROM_REPO_PROMPT sv (full_name rd) focus_area (take 10000 code_context)))
      else if diagram_type = ''Mindmap'' then
        (case repo_data self of
           None \<Rightarrow> Inl TypeError
         | Some rd \<Rightarrow>
             (let file_structure = get_file_structure sv (files rd)
              in case overview self of
                   None \<Rightarrow> Inl AttributeError
                 | Some ov \<Rightarrow>
                     py_bind (py_get_default ov ''components'' (JList [])) (\<lambda>components.
                       Inr (MINDMAP_FROM_REPO_PROMPT sv (full_name rd)
                              (case description rd of None \<Rightarrow> [] | Some d \<Rightarrow> d)
                              (take 3000 file_structure)
                              (json_dumps sv components)))))
      else if diagram_type = ''Graph'' then
        py_bind (query lib (rag self) ''import require from dependencies'' 15 None) (\<lambda>import_docs.
          let import_context =
                str_join ''\<newline>\<newline>''
                  (map (\<lambda>doc. ''['' @ source (metadata doc) @ '']\<newline>'' @ page_content doc)
                       import_docs)
          in case repo_data self of
               None \<Rightarrow> Inl TypeError
             | Some rd \<Rightarrow>
                 Inr (GRAPH_FROM_REPO_PROMPT sv (full_name rd)
                        (take 5000 import_context) (take 5000 code_context)))
      else
        (case repo_data self of
           None \<Rightarrow> Inl TypeError
         | Some rd \<Rightarrow>
             Inr (SEQUENCE_FROM_REPO_PROMPT sv (full_name rd) focus_area (take 10000 code_context))))"

text \<open>The end of \<open>generate_diagram_data\<close>: a truthy result receives \<open>_meta\<close>.\<close>

definition attach_meta :: "diagram_spec \<Rightarrow> string \<Rightarrow> json option \<Rightarrow> py_exception + json option" where
  "attach_meta diagram_spec diagram_type diagram_data =
     (case diagram_data of
        None \<Rightarrow> Inr None
      | Some d \<Rightarrow>
          if py_not diagram_data then Inr (Some d)
          else py_bind
                 (py_setitem d ''_meta''
                    (JObject [(''type'', JString diagram_type),
                              (''title'', JString (spec_get diagram_spec ''title'' ''Untitled'')),
                              (''description'', JString (spec_get diagram_spec ''description'' []))]))
                 (\<lambda>d'. Inr (Some d')))"

text \<open>The \<open>code_context\<close> of \<open>generate_diagram_data\<close>, joined from the retrieved
  documents.\<close>

definition diagram_code_context :: "document list \<Rightarrow> string" where
  "diagram_code_context relevant_docs =
     str_join ''\<newline>\<newline>''
       (map (\<lambda>doc. ''=== '' @ source (metadata doc) @ '' ===\<newline>'' @ page_content doc)
            relevant_docs)"

definition generate_diagram_data ::
  "library \<Rightarrow> services \<Rightarrow> agent \<Rightarrow> diagram_spec \<Rightarrow> py_exception + json option" where
  "generate_diagram_data lib sv self diagram_spec =
     (let diagram_type = spec_get diagram_spec ''type'' ''Sequence'';
          focus_area = spec_get diagram_spec ''generation_prompt''
                         (spec_get diagram_spec ''title'' [])
      in py_bind (query lib (rag self) focus_area 10 None) (\<lambda>relevant_docs.
           let code_context = diagram_code_context relevant_docs
           in py_bind (diagram_prompt lib sv self diagram_type focus_area code_context) (\<lambda>prompt.
                let response = llm sv prompt (ANALYSIS_SYSTEM_PROMPT sv)
                in py_bind (parse_json_response sv response) (\<lambda>diagram_data.
                     attach_meta diagram_spec diagram_type diagram_data))))"

section \<open>Deduplication in first-seen order\<close>

text \<open>The documents of a list whose source was not seen before them, as the
  specification words the merge of the query results.\<close>

fun first_seen :: "document list \<Rightarrow> document list" where
  "first_seen [] = []"
| "first_seen (d # ds) =
     d # first_seen (filter (\<lambda>d'. source (metadata d') \<noteq> source (metadata d)) ds)"

section \<open>Concrete inputs\<close>

text \<open>
  Templates, data and library instances for the examples that close the development.
  \<open>dumps_empty\<close> agrees with \<open>json.dumps(x, indent=2)\<close> on the empty dictionary and
  the empty list, the only data the examples serialize.
\<close>

definition example_template :: string where
  "example_template = ''<script>/* [INJECTION_START] */ old /* [INJECTION_END] */</script>''"

definition reversed_template :: string where
  "reversed_template = ''/* [INJECTION_END] */X/* [INJECTION_START] */''"

definition plain_template :: string where
  "plain_template = ''<html><body>no markers</body></html>''"

definition dumps_empty :: "json \<Rightarrow> py_exception + string" where
  "dumps_empty d =
     (if d = JObject [] then Inr ''{}'' else if d = JList [] then Inr ''[]'' else Inl TypeError)"

text \<open>The positions at which \<open>m\<close> occurs in \<open>s\<close>.\<close>

definition occurrences :: "string \<Rightarrow> string \<Rightarrow> nat list" where
  "occurrences m s = filter (\<lambda>j. prefix m (drop j s)) [0..<Suc (length s)]"

text \<open>
  A decoder for the examples: each text with the value \<open>json.loads\<close> returns for it;
  every other text is rejected as invalid.
\<close>

definition sequence_text :: string where
  \<open>sequence_text = ''{"participants": [], "events": [], "mermaid_syntax": "x"}''\<close>

definition timeline_text :: string where
  \<open>timeline_text = ''{"mermaid_syntax": "x", "participants": []}''\<close>

definition other_text :: string where
  \<open>other_text = ''{"nodes": [], "edges": []}''\<close>

definition mixed_text :: string where
  \<open>mixed_text = ''{"participants": 1, "events": [], "mermaid_syntax": "x"}''\<close>

definition loads_examples :: "string \<Rightarrow> py_exception + json" where
  "loads_examples text =
     (case map_of
             [(sequence_text,
                 JObject [(''participants'', JList []), (''events'', JList []),
                          (''mermaid_syntax'', JString ''x'')]),
              (timeline_text,
                 JObject [(''mermaid_syntax'', JString ''x''), (''participants'', JList [])]),
              (other_text, JObject [(''nodes'', JList []), (''edges'', JList [])]),
              (mixed_text,
                 JObject [(''participants'', JInt 1), (''events'', JList []),
                          (''mermaid_syntax'', JString ''x'')]),
              (''42'', JInt 42)] text of
        None \<Rightarrow> Inl JSONDecodeError
      | Some v \<Rightarrow> Inr v)"

text \<open>
  A library instance. On text without separators the configured splitter cuts windows
  of 1500 characters that overlap by 200, which is \<open>window_split\<close>; the store returns
  the documents last indexed first; the path functions are those of a plain file name
  in lower case.
\<close>

function window_split :: "string \<Rightarrow> string list" where
  "window_split s = (if length s \<le> 1500 then [s] else take 1500 s # window_split (drop 1300 s))"
  by pat_completeness auto
termination
  by (relation "measure length") auto

declare window_split.simps [simp del]

definition example_library :: library where
  "example_library =
     \<lparr>path_suffix_lower = (\<lambda>p. dropWhile (\<lambda>c. c \<noteq> CHR ''.'') p),
      path_parent = (\<lambda>p. ''.''),
      path_name = (\<lambda>p. p),
      split_text = window_split,
      rank = (\<lambda>q docs. rev docs)\<rparr>"

definition example_files :: files where
  "example_files = [(''main.py'', \<lparr>content = ''class Foo: pass'', fsize = 15\<rparr>)]"

definition empty_files :: files where
  "empty_files = [(''empty.py'', \<lparr>content = [], fsize = 0\<rparr>)]"

text \<open>Services whose model gives the same answer to every prompt; the prompts put
  their fields one after the other.\<close>

definition example_services :: "string \<Rightarrow> services" where
  "example_services answer =
     \<lparr>json_loads = loads_examples,
      json_dumps = (\<lambda>d. ''[]''),
      llm = (\<lambda>prompt system_prompt. answer),
      get_file_structure = (\<lambda>fs. str_join ''\<newline>'' (map fst fs)),
      ANALYSIS_SYSTEM_PROMPT = ''You are an expert software architect.'',
      REPO_OVERVIEW_PROMPT = (\<lambda>repo_name descr lang file_structure code_context.
         repo_name @ descr @ lang @ file_structure @ code_context),
      SEQUENCE_FROM_REPO_PROMPT = (\<lambda>repo_name focus_area code_context.
         ''sequence: '' @ repo_name @ focus_area @ code_context),
      MINDMAP_FROM_REPO_PROMPT = (\<lambda>repo_name descr file_structure components.
         ''mindmap: '' @ repo_name @ descr @ file_structure @ components),
      GRAPH_FROM_REPO_PROMPT = (\<lambda>repo_name import_context module_structure.
         ''graph: '' @ repo_name @ import_context @ module_structure)\<rparr>"

text \<open>A file of 26500 characters, which the splitter cuts into 21 chunks.\<close>

definition big_content :: string where
  "big_content = replicate 26500 CHR ''a''"

definition big_files :: files where
  "big_files = [(''big.py'', \<lparr>content = big_content, fsize = 26500\<rparr>)]"

definition example_store :: "document list" where
  "example_store =
     [\<lparr>page_content = ''class Foo: pass'',
       metadata = \<lparr>source = ''main.py'', file_type = ''python'', doc_size = 15,
                   directory = ''.'', filename = ''main.py'',
                   chunk_index = None, total_chunks = None\<rparr>\<rparr>]"

definition example_agent :: agent where
  "example_agent =
     \<lparr>rag = \<lparr>vectorstore = Some example_store\<rparr>,
      repo_data = Some \<lparr>name = ''demo'', full_name = ''acme/demo'', description = None,
                        language = None, files = example_files\<rparr>,
      overview = None,
      diagram_plan = None\<rparr>"

section \<open>Facts about the string operations\<close>

lemma str_find_ge: "- 1 \<le> str_find T m"
  by (induction T) (auto simp: Let_def)

lemma str_find_found:
  "str_find T m \<noteq> - 1 \<Longrightarrow> 0 \<le> str_find T m \<and> prefix m (drop (nat (str_find T m)) T)"
proof (induction T)
  case Nil
  then show ?case by (auto split: if_splits)
next
  case (Cons c cs)
  show ?case
  proof (cases "prefix m (c # cs)")
    case True
    then show ?thesis by simp
  next
    case False
    with Cons.prems have r: "str_find cs m \<noteq> - 1"
      by (auto simp: Let_def split: if_splits)
    from Cons.IH [OF r] False show ?thesis
      by (simp add: Let_def r nat_add_distrib)
  qed
qed

lemma str_find_first:
  "str_find T m \<noteq> - 1 \<Longrightarrow> j < nat (str_find T m) \<Longrightarrow> \<not> prefix m (drop j T)"
proof (induction T arbitrary: j)
  case Nil
  then show ?case by (auto split: if_splits)
next
  case (Cons c cs)
  show ?case
  proof (cases "prefix m (c # cs)")
    case True
    with Cons.prems show ?thesis by simp
  next
    case False
    with Cons.prems have r: "str_find cs m \<noteq> - 1"
      by (auto simp: Let_def split: if_splits)
    have v: "str_find (c # cs) m = str_find cs m + 1"
      using False r by (simp add: Let_def)
    have nn: "0 \<le> str_find cs m" using str_find_found [OF r] by simp
    show ?thesis
    proof (cases j)
      case 0
      then show ?thesis using False by simp
    next
      case (Suc k)
      with Cons.prems(2) v nn have "k < nat (str_find cs m)" by simp
      from Cons.IH [OF r this] Suc show ?thesis by simp
    qed
  qed
qed

lemma str_find_absent: "str_find T m = - 1 \<longleftrightarrow> \<not> sublist m T"
proof (induction T)
  case Nil
  then show ?case by auto
next
  case (Cons c cs)
  have ge: "- 1 \<le> str_find cs m" by (rule str_find_ge)
  show ?case
  proof (cases m)
    case Nil
    then show ?thesis by simp
  next
    case (Cons a m')
    with Cons.IH ge show ?thesis
      by (auto simp: Let_def sublist_Cons_right)
  qed
qed

lemma str_find_skip:
  "(\<forall>j < length X. \<not> prefix m (drop j (X @ Y))) \<Longrightarrow>
   str_find (X @ Y) m = (if str_find Y m = - 1 then - 1 else int (length X) + str_find Y m)"
proof (induction X)
  case Nil
  then show ?case by simp
next
  case (Cons c cs)
  from Cons.prems have np: "\<not> prefix m (c # cs @ Y)" by force
  have "\<forall>j < length cs. \<not> prefix m (drop j (cs @ Y))"
  proof (intro allI impI)
    fix j assume "j < length cs"
    then have "Suc j < length (c # cs)" by simp
    with Cons.prems have "\<not> prefix m (drop (Suc j) ((c # cs) @ Y))" by blast
    then show "\<not> prefix m (drop j (cs @ Y))" by simp
  qed
  from Cons.IH [OF this] np str_find_ge [of Y m] show ?case by (auto simp: Let_def)
qed

lemma str_find_self: "str_find (m @ R) m = 0"
proof (cases "m @ R")
  case Nil
  then show ?thesis by simp
next
  case (Cons a list)
  have "prefix m (a # list)" using Cons [symmetric] by (rule prefixI)
  then show ?thesis unfolding Cons by simp
qed

lemma str_find_skip1:
  "str_find Y m = int k \<Longrightarrow> \<not> prefix m (c # Y) \<Longrightarrow> str_find (c # Y) m = int (Suc k)"
  by (simp add: Let_def)

lemma str_find_skip_chars:
  "str_find Y (a # m') = int k \<Longrightarrow> a \<notin> set X \<Longrightarrow>
   str_find (X @ Y) (a # m') = int (length X + k)"
  by (induction X) (auto simp: Let_def)

lemma prefix_append_short:
  "length m \<le> length X \<Longrightarrow> prefix m (X @ R) \<longleftrightarrow> prefix m X"
  by (auto simp: prefix_append)

lemma occurrence_transfer:
  assumes "j < length P" and "length m \<le> length S"
  shows "prefix m (drop j (P @ S @ R)) \<longleftrightarrow> prefix m (drop j (P @ S @ R'))"
proof -
  have "prefix m ((drop j P @ S) @ Z) \<longleftrightarrow> prefix m (drop j P @ S)" for Z
    using assms by (intro prefix_append_short) simp
  with assms(1) show ?thesis by simp
qed

lemma no_occurrence_across:
  assumes "c \<notin> set m" and "\<not> sublist m J" and "j < length J"
  shows "\<not> prefix m (drop j (J @ c # R))"
proof
  assume p: "prefix m (drop j (J @ c # R))"
  show False
  proof (cases "j + length m \<le> length J")
    case True
    then have "prefix m (drop j J)"
      using p assms(3) prefix_append_short [of m "drop j J" "c # R"] by simp
    then obtain zs where "drop j J = m @ zs" by (auto simp: prefix_def)
    then have "J = take j J @ m @ zs" by (metis append_take_drop_id)
    then have "sublist m J" unfolding sublist_def by blast
    with assms(2) show False ..
  next
    case False
    then have lt: "length J - j < length m" using assms(3) by simp
    from p obtain zs where eq: "drop j (J @ c # R) = m @ zs" by (auto simp: prefix_def)
    have "(drop j (J @ c # R)) ! (length J - j) = c"
      using assms(3) by (simp add: nth_append)
    with eq lt have "m ! (length J - j) = c" by (simp add: nth_append)
    with lt have "c \<in> set m" by (metis nth_mem)
    with assms(1) show False ..
  qed
qed

lemma escape_prefix:
  "prefix p (str_replace xs ''</'' (''<'' @ [CHR 0x5C] @ ''/'')) \<Longrightarrow> CHR 0x5C \<notin> set p \<Longrightarrow> prefix p xs"
proof (induction xs "''</''" "''<'' @ [CHR 0x5C] @ ''/''" arbitrary: p rule: str_replace.induct)
  case 1
  then show ?case by simp
next
  case (2 c cs)
  show ?case
  proof (cases "prefix ''</'' (c # cs)")
    case True
    then obtain cs' where cs: "c = CHR ''<''" "cs = CHR ''/'' # cs'"
      by (cases cs) auto
    with "2.prems" show ?thesis
      by (cases p; cases "tl p") (auto simp: prefix_Cons)
  next
    case False
    with "2.prems" "2.hyps"(2) [of "tl p"] show ?thesis
      by (cases p) auto
  qed
qed

lemma escape_sublist:
  "sublist m (str_replace xs ''</'' (''<'' @ [CHR 0x5C] @ ''/'')) \<Longrightarrow> CHR 0x5C \<notin> set m \<Longrightarrow> sublist m xs"
proof (induction xs "''</''" "''<'' @ [CHR 0x5C] @ ''/''" rule: str_replace.induct)
  case 1
  then show ?case by simp
next
  case (2 c cs)
  show ?case
  proof (cases "prefix m (str_replace (c # cs) ''</'' (''<'' @ [CHR 0x5C] @ ''/''))")
    case True
    from True "2.prems"(2) have "prefix m (c # cs)" by (rule escape_prefix)
    then show ?thesis by (rule prefix_imp_sublist)
  next
    case np: False
    show ?thesis
    proof (cases "prefix ''</'' (c # cs)")
      case True
      then obtain cs' where cs: "c = CHR ''<''" "cs = CHR ''/'' # cs'"
        by (cases cs) auto
      let ?esc = "\<lambda>s. str_replace s ''</'' (''<'' @ [CHR 0x5C] @ ''/'')"
      have out: "?esc (c # cs) = CHR ''<'' # CHR 0x5C # CHR ''/'' # ?esc cs'"
        using cs by simp
      have ih: "sublist m (?esc cs') \<Longrightarrow> sublist m cs'"
        using "2.hyps"(1) "2.prems"(2) True cs by simp
      from "2.prems"(1) np have "sublist m (CHR 0x5C # CHR ''/'' # ?esc cs')"
        unfolding out by (cases m) (auto simp: sublist_Cons_right)
      with "2.prems"(2) have "sublist m (CHR ''/'' # ?esc cs')"
        by (cases m) (auto simp: sublist_Cons_right)
      then consider "prefix m (CHR ''/'' # ?esc cs')" | "sublist m (?esc cs')"
        by (cases m) (auto simp: sublist_Cons_right)
      then show ?thesis
      proof cases
        case 1
        have "prefix m (CHR ''/'' # cs')"
        proof (cases m)
          case Nil
          then show ?thesis by simp
        next
          case (Cons a m')
          with 1 have "a = CHR ''/''" "prefix m' (?esc cs')" by auto
          moreover have "CHR 0x5C \<notin> set m'" using "2.prems"(2) Cons by simp
          ultimately have "prefix m' cs'" using escape_prefix by blast
          with \<open>a = CHR ''/''\<close> Cons show ?thesis by simp
        qed
        then have "sublist m (CHR ''/'' # cs')" by (rule prefix_imp_sublist)
        then show ?thesis unfolding cs by (rule sublist_Cons_right [THEN iffD2, OF disjI2])
      next
        case 2
        then have "sublist m cs'" by (rule ih)
        then have "sublist m (CHR ''/'' # cs')" by (rule sublist_Cons_right [THEN iffD2, OF disjI2])
        then show ?thesis unfolding cs by (rule sublist_Cons_right [THEN iffD2, OF disjI2])
      qed
    next
      case False
      with np "2.prems" "2.hyps"(2) show ?thesis
        by (cases m) (auto simp: sublist_Cons_right)
    qed
  qed
qed


lemma str_find_skip_set:
  "str_find Y m = int k \<Longrightarrow> m \<noteq> [] \<Longrightarrow> hd m \<notin> set X \<Longrightarrow>
   str_find (X @ Y) m = int (length X + k)"
  using str_find_skip_chars [of Y "hd m" "tl m" k X] by simp

lemma end_marker_after_block:
  assumes J: "\<not> sublist end_marker J"
    and F: "CHR ''/'' \<notin> set F" "F \<noteq> []" "hd F \<noteq> CHR ''*''"
    and G: "CHR ''/'' \<notin> set G" "G \<noteq> []" "hd G = CHR '';''"
  shows "str_find (start_marker @ F @ J @ G @ end_marker @ Q) end_marker
         = int (length start_marker + length F + length J + length G)"
proof -
  let ?E = "end_marker"
  have ne: "?E \<noteq> []" and hd: "hd ?E = CHR ''/''" by (simp_all add: end_marker_def)
  have e0: "str_find (?E @ Q) ?E = int 0" by (simp add: str_find_self)
  have g: "str_find (G @ ?E @ Q) ?E = int (length G + 0)"
    using e0 ne by (rule str_find_skip_set) (simp add: hd G)
  obtain G' where G': "G = CHR '';'' # G'" using G(2,3) by (cases G) auto
  have "\<forall>j < length J. \<not> prefix ?E (drop j (J @ G @ ?E @ Q))"
    unfolding G' append_Cons
    by (intro allI impI no_occurrence_across J) (simp_all add: end_marker_def)
  from str_find_skip [OF this] g
  have j: "str_find (J @ G @ ?E @ Q) ?E = int (length J + length G)"
    by simp
  have f: "str_find (F @ J @ G @ ?E @ Q) ?E = int (length F + (length J + length G))"
    using j ne by (rule str_find_skip_set) (simp add: hd F)
  obtain c F' where F': "F = c # F'" "c \<noteq> CHR ''*''" using F(2,3) by (cases F) auto
  have "\<not> prefix ?E (CHR ''/'' # F @ J @ G @ ?E @ Q)"
    unfolding F'(1) using F'(2) by (auto simp: end_marker_def)
  with f have s1: "str_find (CHR ''/'' # F @ J @ G @ ?E @ Q) ?E
                   = int (Suc (length F + (length J + length G)))"
    by (rule str_find_skip1)
  have s2: "str_find (''* [INJECTION_START] *'' @ CHR ''/'' # F @ J @ G @ ?E @ Q) ?E
            = int (length ''* [INJECTION_START] *'' + Suc (length F + (length J + length G)))"
    using s1 ne by (rule str_find_skip_set) (simp add: hd)
  have "\<not> prefix ?E (CHR ''/'' # ''* [INJECTION_START] *'' @ CHR ''/'' # F @ J @ G @ ?E @ Q)"
    by (simp add: end_marker_def)
  with s2 have "str_find (CHR ''/'' # ''* [INJECTION_START] *'' @ CHR ''/'' # F @ J @ G @ ?E @ Q) ?E
            = int (Suc (length ''* [INJECTION_START] *'' + Suc (length F + (length J + length G))))"
    by (rule str_find_skip1)
  then show ?thesis by (simp add: start_marker_def)
qed


lemma inject_found:
  assumes "dumps D = Inr dumped"
    and "str_find T start_marker = int s" and "str_find T end_marker = int e"
  shows "inject_data_into_html dumps T D
         = Inr (take s T @ new_block (escape_close_tags dumped) @ drop (e + length end_marker) T)"
  using assms by (simp add: inject_data_into_html_def Let_def nat_add_distrib)

lemma inject_not_found:
  assumes "dumps D = Inr dumped"
    and "str_find T start_marker = - 1 \<or> str_find T end_marker = - 1"
  shows "inject_data_into_html dumps T D = Inr T"
  using assms by (auto simp: inject_data_into_html_def Let_def)

lemma str_find_occurrence:
  assumes "sublist m T" and "m \<noteq> []"
  obtains s R where "str_find T m = int s" and "T = take s T @ m @ R" and "s < length T"
    and "\<forall>j<s. \<not> prefix m (drop j T)" and "prefix m (drop s T)"
proof -
  from assms(1) have ne: "str_find T m \<noteq> - 1" by (simp add: str_find_absent)
  define s where "s = nat (str_find T m)"
  from str_find_found [OF ne] have s: "str_find T m = int s" and p: "prefix m (drop s T)"
    by (simp_all add: s_def)
  from p obtain R where R: "drop s T = m @ R" by (auto simp: prefix_def)
  with assms(2) have lt: "s < length T" by (cases "s < length T") auto
  have "T = take s T @ m @ R" using R by (metis append_take_drop_id)
  moreover have "\<forall>j<s. \<not> prefix m (drop j T)"
    using str_find_first [OF ne] by (simp add: s_def)
  ultimately show ?thesis using that s lt p by blast
qed

lemma find_markers_in_injected:
  assumes T: "T = P @ start_marker @ R" and lenP: "length P = s"
    and first_start: "\<forall>j<s. \<not> prefix start_marker (drop j T)"
    and first_end: "\<forall>j<s. \<not> prefix end_marker (drop j T)"
    and J: "\<not> sublist end_marker J"
  shows "str_find (P @ new_block J @ Q) start_marker = int s"
    and "str_find (P @ new_block J @ Q) end_marker = int (s + length (new_block J) - length end_marker)"
proof -
  let ?F = "''\<newline>            const architectureData = ''"
  let ?G = "'';\<newline>            ''"
  let ?R1 = "?F @ J @ ?G @ end_marker @ Q"
  have T1: "P @ new_block J @ Q = P @ start_marker @ ?R1"
    by (simp add: new_block_def)
  have a: "\<forall>j<length P. \<not> prefix start_marker (drop j (P @ start_marker @ ?R1))"
    using first_start occurrence_transfer [of _ P start_marker start_marker R ?R1]
    unfolding T lenP by simp
  have "str_find (P @ start_marker @ ?R1) start_marker = int (length P)"
    using str_find_skip [OF a] by (simp add: str_find_self)
  then show "str_find (P @ new_block J @ Q) start_marker = int s"
    unfolding T1 lenP .
  have le: "length end_marker \<le> length start_marker"
    by (simp add: start_marker_def end_marker_def)
  have b: "\<forall>j<length P. \<not> prefix end_marker (drop j (P @ start_marker @ ?R1))"
    using first_end occurrence_transfer [of _ P end_marker start_marker R ?R1] le
    unfolding T lenP by simp
  have "str_find (start_marker @ ?F @ J @ ?G @ end_marker @ Q) end_marker
        = int (length start_marker + length ?F + length J + length ?G)"
    by (rule end_marker_after_block [OF J]) simp_all
  with str_find_skip [OF b]
  have "str_find (P @ start_marker @ ?R1) end_marker
        = int (length P + (length start_marker + length ?F + length J + length ?G))"
    by simp
  then show "str_find (P @ new_block J @ Q) end_marker
             = int (s + length (new_block J) - length end_marker)"
    unfolding T1 lenP by (simp add: new_block_def)
qed

section \<open>Template injection\<close>

text \<open>
  C3, amended. Let the template contain both markers, the first start marker before the
  first end marker. Then the template is \<open>pre @ span @ post\<close>, where \<open>span\<close> begins
  with the first occurrence of the start marker and ends with the first occurrence of
  the end marker, and the result of the injection is \<open>pre\<close>, the new block, \<open>post\<close>:
  nothing outside the span changes.
\<close>

theorem inject_replaces_marker_span:
  assumes d: "dumps D = Inr dumped"
    and has_start: "sublist start_marker T" and has_end: "sublist end_marker T"
    and order: "str_find T start_marker < str_find T end_marker"
  shows "\<exists>pre span post.
           T = pre @ span @ post
         \<and> prefix start_marker span \<and> suffix end_marker span
         \<and> (\<forall>j<length pre. \<not> prefix start_marker (drop j T))
         \<and> (\<forall>j<length pre + length span - length end_marker. \<not> prefix end_marker (drop j T))
         \<and> inject_data_into_html dumps T D
             = Inr (pre @ new_block (escape_close_tags dumped) @ post)"
proof -
  have sne: "start_marker \<noteq> []" and ene: "end_marker \<noteq> []"
    by (simp_all add: start_marker_def end_marker_def)
  from has_start sne obtain s R where s: "str_find T start_marker = int s"
    and sl: "s < length T"
    and fs: "\<forall>j<s. \<not> prefix start_marker (drop j T)"
    and ps: "prefix start_marker (drop s T)"
    by (rule str_find_occurrence)
  from has_end ene obtain e R' where e: "str_find T end_marker = int e"
    and el: "e < length T"
    and fe: "\<forall>j<e. \<not> prefix end_marker (drop j T)"
    and pe: "prefix end_marker (drop e T)"
    by (rule str_find_occurrence)
  from order s e have se: "s < e" by simp
  let ?n = "length end_marker"
  define pre where "pre = take s T"
  define post where "post = drop (e + ?n) T"
  define span where "span = drop s (take (e + ?n) T)"
  from pe obtain Z where Z: "drop e T = end_marker @ Z" by (auto simp: prefix_def)
  have te: "take (e + ?n) T = take e T @ end_marker"
  proof -
    have "take (e + ?n) T = take e T @ take ?n (drop e T)" by (simp add: take_add)
    then show ?thesis using Z by simp
  qed
  have span_eq: "span = drop s (take e T) @ end_marker"
    using se el by (simp add: span_def te)
  have lens: "length span = e + ?n - s"
    using se el by (simp add: span_eq)
  have "pre = take s (take (e + ?n) T)" using se by (simp add: pre_def min_def)
  then have "pre @ span = take (e + ?n) T"
    unfolding span_def by (simp only: append_take_drop_id)
  then have dec: "T = pre @ span @ post"
    unfolding post_def by (metis append_assoc append_take_drop_id)
  have e2: "s + 2 \<le> e"
  proof (rule ccontr)
    assume "\<not> s + 2 \<le> e"
    with se have "e = Suc s" by simp
    with pe have "prefix end_marker (tl (drop s T))" by (simp add: drop_Suc drop_tl)
    moreover from ps obtain Y where "drop s T = start_marker @ Y" by (auto simp: prefix_def)
    ultimately show False by (simp add: start_marker_def end_marker_def)
  qed
  have "prefix start_marker span"
  proof -
    from ps obtain Y where Y: "drop s T = start_marker @ Y" by (auto simp: prefix_def)
    have "span = take (e + ?n - s) (drop s T)" by (simp add: span_def drop_take)
    also have "\<dots> = start_marker @ take (e + ?n - s - length start_marker) Y"
    proof -
      have "length start_marker = 23" "?n = 21"
        by (simp_all add: start_marker_def end_marker_def)
      with e2 have "length start_marker \<le> e + ?n - s" by simp
      then show ?thesis unfolding Y by simp
    qed
    finally show ?thesis by simp
  qed
  moreover have "suffix end_marker span" unfolding span_eq by (rule suffixI) simp
  moreover have "\<forall>j<length pre. \<not> prefix start_marker (drop j T)"
    using fs sl by (simp add: pre_def)
  moreover have "\<forall>j<length pre + length span - ?n. \<not> prefix end_marker (drop j T)"
    using fe sl se by (simp add: pre_def lens)
  moreover have "inject_data_into_html dumps T D
             = Inr (pre @ new_block (escape_close_tags dumped) @ post)"
    unfolding pre_def post_def using d s e by (rule inject_found)
  ultimately show ?thesis using dec by blast
qed



theorem inject_replaces_marker_span_witness:
  "\<exists>pre span post.
     example_template = pre @ span @ post
   \<and> prefix start_marker span \<and> suffix end_marker span
   \<and> inject_data_into_html dumps_empty example_template (JObject [])
       = Inr (pre @ new_block ''{}'' @ post)"
proof -
  have 1: "dumps_empty (JObject []) = Inr ''{}''" by (simp add: dumps_empty_def)
  have 2: "sublist start_marker example_template"
    by (simp add: start_marker_def example_template_def sublist_Cons_right)
  have 3: "sublist end_marker example_template"
    by (simp add: end_marker_def example_template_def sublist_Cons_right)
  have 4: "str_find example_template start_marker < str_find example_template end_marker"
    by (simp add: start_marker_def end_marker_def example_template_def)
  have 5: "escape_close_tags ''{}'' = ''{}''" by (simp add: escape_close_tags_def)
  from inject_replaces_marker_span [of dumps_empty "JObject []" "''{}''" example_template,
         OF 1 2 3 4]
  show ?thesis unfolding 5 by blast
qed

text \<open>
  With the end marker before the start marker, both markers are there and the result
  keeps all of the template and repeats the text between the markers: it is not the
  template with a span replaced.
\<close>

theorem inject_reversed_markers_counterexample:
  "sublist start_marker reversed_template \<and> sublist end_marker reversed_template
   \<and> inject_data_into_html dumps_empty reversed_template (JObject [])
       = Inr (''/* [INJECTION_END] */X'' @ new_block ''{}'' @ ''X/* [INJECTION_START] */'')
   \<and> \<not> (\<exists>pre span post.
           reversed_template = pre @ span @ post
         \<and> inject_data_into_html dumps_empty reversed_template (JObject [])
             = Inr (pre @ new_block ''{}'' @ post))"
proof -
  have r: "inject_data_into_html dumps_empty reversed_template (JObject [])
           = Inr (''/* [INJECTION_END] */X'' @ new_block ''{}'' @ ''X/* [INJECTION_START] */'')"
    by (simp add: inject_data_into_html_def dumps_empty_def reversed_template_def
          escape_close_tags_def start_marker_def end_marker_def)
  have "\<not> (\<exists>pre span post.
           reversed_template = pre @ span @ post
         \<and> inject_data_into_html dumps_empty reversed_template (JObject [])
             = Inr (pre @ new_block ''{}'' @ post))"
  proof
    assume "\<exists>pre span post.
           reversed_template = pre @ span @ post
         \<and> inject_data_into_html dumps_empty reversed_template (JObject [])
             = Inr (pre @ new_block ''{}'' @ post)"
    then obtain pre span post where t: "reversed_template = pre @ span @ post"
      and i: "inject_data_into_html dumps_empty reversed_template (JObject [])
             = Inr (pre @ new_block ''{}'' @ post)"
      by blast
    from i r have "length (pre @ new_block ''{}'' @ post)
                   = length (''/* [INJECTION_END] */X'' @ new_block ''{}'' @ ''X/* [INJECTION_START] */'')"
      by simp
    then have "length pre + length post = 46" by simp
    moreover have "length (pre @ span @ post) = 45"
      unfolding t [symmetric] by (simp add: reversed_template_def)
    then have "length pre + length span + length post = 45" by simp
    ultimately show False by simp
  qed
  moreover have "sublist start_marker reversed_template"
    by (simp add: start_marker_def reversed_template_def sublist_Cons_right)
  moreover have "sublist end_marker reversed_template"
    by (simp add: end_marker_def reversed_template_def sublist_Cons_right)
  ultimately show ?thesis using r by blast
qed


text \<open>
  C4, amended. Let the template contain both markers, the first start marker before the
  first end marker (as in every template where each marker occurs once, in this order),
  and let the serialized first payload not contain the end marker. Then injecting onto
  the already injected artifact succeeds and replaces the previous payload whole: the
  result is the one of injecting the second payload into the original template.
\<close>

theorem reinject_replaces_payload:
  assumes d1: "dumps D1 = Inr dumped1" and d2: "dumps D2 = Inr dumped2"
    and has_start: "sublist start_marker T" and has_end: "sublist end_marker T"
    and order: "str_find T start_marker < str_find T end_marker"
    and payload: "\<not> sublist end_marker dumped1"
  shows "\<exists>T1 T2. inject_data_into_html dumps T D1 = Inr T1
           \<and> inject_data_into_html dumps T1 D2 = Inr T2
           \<and> inject_data_into_html dumps T D2 = Inr T2"
proof -
  have sne: "start_marker \<noteq> []" and ene: "end_marker \<noteq> []"
    by (simp_all add: start_marker_def end_marker_def)
  from has_start sne obtain s R where s: "str_find T start_marker = int s"
    and T: "T = take s T @ start_marker @ R" and sl: "s < length T"
    and fs: "\<forall>j<s. \<not> prefix start_marker (drop j T)"
    by (rule str_find_occurrence)
  from has_end ene obtain e R' where e: "str_find T end_marker = int e"
    and fe: "\<forall>j<e. \<not> prefix end_marker (drop j T)"
    by (rule str_find_occurrence)
  from order s e have se: "s < e" by simp
  let ?P = "take s T" and ?Q = "drop (e + length end_marker) T"
  let ?J1 = "escape_close_tags dumped1" and ?J2 = "escape_close_tags dumped2"
  let ?T1 = "?P @ new_block ?J1 @ ?Q"
  have i1: "inject_data_into_html dumps T D1 = Inr ?T1"
    using d1 s e by (rule inject_found)
  have i2: "inject_data_into_html dumps T D2 = Inr (?P @ new_block ?J2 @ ?Q)"
    using d2 s e by (rule inject_found)
  have lenP: "length ?P = s" using sl by simp
  have fe': "\<forall>j<s. \<not> prefix end_marker (drop j T)" using fe se by simp
  have "CHR 0x5C \<notin> set end_marker" by (simp add: end_marker_def)
  with payload have J: "\<not> sublist end_marker ?J1"
    unfolding escape_close_tags_def using escape_sublist by blast
  note f = find_markers_in_injected [OF T lenP fs fe' J, of ?Q]
  have ge: "length end_marker \<le> length (new_block ?J1)" by (simp add: new_block_def)
  have "inject_data_into_html dumps ?T1 D2
        = Inr (take s ?T1 @ new_block ?J2
               @ drop (s + length (new_block ?J1) - length end_marker + length end_marker) ?T1)"
    using d2 f by (rule inject_found)
  also have "take s ?T1 = ?P" using lenP by simp
  also have "drop (s + length (new_block ?J1) - length end_marker + length end_marker) ?T1 = ?Q"
    using lenP ge by simp
  finally show ?thesis using i1 i2 by simp
qed


theorem reinject_replaces_payload_witness:
  "\<exists>T1 T2. inject_data_into_html dumps_empty example_template (JObject []) = Inr T1
      \<and> inject_data_into_html dumps_empty T1 (JList []) = Inr T2
      \<and> inject_data_into_html dumps_empty example_template (JList []) = Inr T2"
proof -
  have 1: "dumps_empty (JObject []) = Inr ''{}''" by (simp add: dumps_empty_def)
  have 2: "dumps_empty (JList []) = Inr ''[]''" by (simp add: dumps_empty_def)
  have 3: "sublist start_marker example_template"
    by (simp add: start_marker_def example_template_def sublist_Cons_right)
  have 4: "sublist end_marker example_template"
    by (simp add: end_marker_def example_template_def sublist_Cons_right)
  have 5: "str_find example_template start_marker < str_find example_template end_marker"
    by (simp add: start_marker_def end_marker_def example_template_def)
  have 6: "\<not> sublist end_marker ''{}''"
    by (simp add: end_marker_def sublist_Cons_right)
  from reinject_replaces_payload
         [of dumps_empty "JObject []" "''{}''" "JList []" "''[]''" example_template,
          OF 1 2 3 4 5 6]
  show ?thesis .
qed

text \<open>
  With the end marker before the start marker, each marker occurring once and no marker
  in a payload, the second injection leaves the first payload in the artifact.
\<close>

theorem reinject_reversed_markers_counterexample:
  "length (occurrences start_marker reversed_template) = 1
   \<and> length (occurrences end_marker reversed_template) = 1
   \<and> \<not> sublist start_marker ''{}'' \<and> \<not> sublist end_marker ''{}''
   \<and> \<not> sublist start_marker ''[]'' \<and> \<not> sublist end_marker ''[]''
   \<and> inject_data_into_html dumps_empty reversed_template (JObject [])
       = Inr (''/* [INJECTION_END] */X'' @ new_block ''{}'' @ ''X/* [INJECTION_START] */'')
   \<and> inject_data_into_html dumps_empty
         (''/* [INJECTION_END] */X'' @ new_block ''{}'' @ ''X/* [INJECTION_START] */'') (JList [])
       \<noteq> inject_data_into_html dumps_empty reversed_template (JList [])"
proof -
  have "length (occurrences start_marker reversed_template) = 1"
    by (simp add: occurrences_def start_marker_def reversed_template_def upt_rec)
  moreover have "length (occurrences end_marker reversed_template) = 1"
    by (simp add: occurrences_def end_marker_def reversed_template_def upt_rec)
  moreover have "\<not> sublist start_marker ''{}''" "\<not> sublist end_marker ''{}''"
    "\<not> sublist start_marker ''[]''" "\<not> sublist end_marker ''[]''"
    by (simp_all add: start_marker_def end_marker_def sublist_Cons_right)
  moreover have "inject_data_into_html dumps_empty reversed_template (JObject [])
       = Inr (''/* [INJECTION_END] */X'' @ new_block ''{}'' @ ''X/* [INJECTION_START] */'')"
    by (simp add: inject_data_into_html_def dumps_empty_def reversed_template_def
          escape_close_tags_def start_marker_def end_marker_def)
  moreover have "inject_data_into_html dumps_empty
         (''/* [INJECTION_END] */X'' @ new_block ''{}'' @ ''X/* [INJECTION_START] */'') (JList [])
       \<noteq> inject_data_into_html dumps_empty reversed_template (JList [])"
    by (simp add: inject_data_into_html_def dumps_empty_def reversed_template_def
          escape_close_tags_def new_block_def start_marker_def end_marker_def)
  ultimately show ?thesis by blast
qed

text \<open>
  C5, amended. When the start marker or the end marker is absent from the template,
  the injection raises nothing: it returns the template unchanged (after printing a
  message).
\<close>

theorem inject_missing_marker_returns_template:
  assumes "dumps D = Inr dumped"
    and "\<not> sublist start_marker T \<or> \<not> sublist end_marker T"
  shows "inject_data_into_html dumps T D = Inr T"
  using assms by (intro inject_not_found [of dumps D dumped]) (auto simp: str_find_absent)

theorem inject_missing_marker_returns_template_witness:
  "inject_data_into_html dumps_empty ''<script>/* [INJECTION_START] */</script>'' (JObject [])
   = Inr ''<script>/* [INJECTION_START] */</script>''"
proof -
  have 1: "dumps_empty (JObject []) = Inr ''{}''" by (simp add: dumps_empty_def)
  have 2: "\<not> sublist start_marker ''<script>/* [INJECTION_START] */</script>''
           \<or> \<not> sublist end_marker ''<script>/* [INJECTION_START] */</script>''"
    by (simp add: end_marker_def sublist_Cons_right)
  from inject_missing_marker_returns_template
         [of dumps_empty "JObject []" "''{}''" "''<script>/* [INJECTION_START] */</script>''",
          OF 1 2]
  show ?thesis .
qed

text \<open>A template without markers and serializable data: the call returns a string,
  the template, and no exception.\<close>

theorem inject_no_marker_error_counterexample:
  "\<not> sublist start_marker plain_template \<and> \<not> sublist end_marker plain_template
   \<and> dumps_empty (JObject []) = Inr ''{}''
   \<and> inject_data_into_html dumps_empty plain_template (JObject []) = Inr plain_template
   \<and> \<not> isl (inject_data_into_html dumps_empty plain_template (JObject []))"
  by (simp add: inject_data_into_html_def dumps_empty_def plain_template_def
        start_marker_def end_marker_def sublist_Cons_right)


section \<open>Validation of the model's answer\<close>

lemma py_bind_Inr [simp]: "py_bind (Inr v) f = f v"
  by (simp add: py_bind_def)

lemma py_bind_Inl [simp]: "py_bind (Inl e) f = Inl e"
  by (simp add: py_bind_def)

lemma validate_data_sequence:
  assumes "''participants'' \<in> fst ` set kvs" and "''events'' \<in> fst ` set kvs"
    and "map_of kvs ''participants'' = Some (JList ps)"
    and "map_of kvs ''events'' = Some (JList es)"
  shows "validate_data (JObject kvs) = Inr (Some (JObject kvs))"
  using assms by (simp add: validate_data_def)

lemma is_list_iff: "is_list v \<longleftrightarrow> (\<exists>xs. v = JList xs)"
  by (cases v) simp_all

lemma validate_data_sequence_rejects:
  assumes "''participants'' \<in> fst ` set kvs" and "''events'' \<in> fst ` set kvs"
    and "\<not> ((\<exists>ps. map_of kvs ''participants'' = Some (JList ps))
            \<and> (\<exists>es. map_of kvs ''events'' = Some (JList es)))"
  shows "validate_data (JObject kvs) = Inr None"
proof -
  have "\<not> (is_list (case map_of kvs ''participants'' of None \<Rightarrow> JNull | Some v \<Rightarrow> v)
           \<and> is_list (case map_of kvs ''events'' of None \<Rightarrow> JNull | Some v \<Rightarrow> v))"
    using assms(3) by (auto simp: is_list_iff split: option.splits)
  with assms(1,2) show ?thesis by (auto simp: validate_data_def)
qed

lemma validate_data_timeline:
  assumes "\<not> (''participants'' \<in> fst ` set kvs \<and> ''events'' \<in> fst ` set kvs)"
    and "''mermaid_syntax'' \<in> fst ` set kvs"
  shows "validate_data (JObject kvs) = Inr (Some (JObject kvs))"
  using assms by (auto simp: validate_data_def)

lemma validate_data_requires_graph_fields:
  assumes "\<not> (''participants'' \<in> fst ` set kvs \<and> ''events'' \<in> fst ` set kvs)"
    and "''mermaid_syntax'' \<notin> fst ` set kvs"
    and "\<not> (''nodes'' \<in> fst ` set kvs \<and> ''hierarchy'' \<in> fst ` set kvs
            \<and> ''edges'' \<in> fst ` set kvs)"
  shows "validate_data (JObject kvs) = Inr None"
  using assms by (auto simp: validate_data_def)

text \<open>
  C1. Let the extracted text decode to an object. If it has the keys \<open>participants\<close>
  and \<open>events\<close>, the Sequence schema decides, whether or not \<open>mermaid_syntax\<close> is
  present: the object is returned when both keys are bound to lists and rejected when
  one of them is not, so the presence of \<open>mermaid_syntax\<close> does not rescue it. If it
  has \<open>mermaid_syntax\<close> and not both of \<open>participants\<close> and \<open>events\<close>, it is
  returned with no further check (the Timeline branch). Only otherwise are \<open>nodes\<close>,
  \<open>hierarchy\<close> and \<open>edges\<close> required: an object without one of them is rejected.
\<close>

theorem validate_json_dispatch:
  assumes "loads (extract_json s) = Inr (JObject kvs)"
  shows "(''participants'' \<in> fst ` set kvs \<and> ''events'' \<in> fst ` set kvs
          \<and> (\<exists>ps. map_of kvs ''participants'' = Some (JList ps))
          \<and> (\<exists>es. map_of kvs ''events'' = Some (JList es))
          \<longrightarrow> validate_json loads s = Inr (Some (JObject kvs)))
       \<and> (''participants'' \<in> fst ` set kvs \<and> ''events'' \<in> fst ` set kvs
          \<and> \<not> ((\<exists>ps. map_of kvs ''participants'' = Some (JList ps))
                \<and> (\<exists>es. map_of kvs ''events'' = Some (JList es)))
          \<longrightarrow> validate_json loads s = Inr None)
       \<and> (\<not> (''participants'' \<in> fst ` set kvs \<and> ''events'' \<in> fst ` set kvs)
          \<and> ''mermaid_syntax'' \<in> fst ` set kvs
          \<longrightarrow> validate_json loads s = Inr (Some (JObject kvs)))
       \<and> (\<not> (''participants'' \<in> fst ` set kvs \<and> ''events'' \<in> fst ` set kvs)
          \<and> ''mermaid_syntax'' \<notin> fst ` set kvs
          \<and> \<not> (''nodes'' \<in> fst ` set kvs \<and> ''hierarchy'' \<in> fst ` set kvs
                \<and> ''edges'' \<in> fst ` set kvs)
          \<longrightarrow> validate_json loads s = Inr None)"
proof -
  have v: "validate_json loads s = validate_data (JObject kvs)"
    using assms by (simp add: validate_json_def)
  show ?thesis
    unfolding v
    using validate_data_sequence [of kvs] validate_data_sequence_rejects [of kvs]
      validate_data_timeline [of kvs] validate_data_requires_graph_fields [of kvs]
    by blast
qed

lemma extract_examples:
  "extract_json sequence_text = sequence_text"
  "extract_json timeline_text = timeline_text"
  "extract_json other_text = other_text"
  "extract_json mixed_text = mixed_text"
  "extract_json ''42'' = ''42''"
  by (simp_all add: extract_json_def search_braces_def match_fenced_def
        sequence_text_def timeline_text_def other_text_def mixed_text_def)

lemma loads_examples_values:
  "loads_examples sequence_text =
     Inr (JObject [(''participants'', JList []), (''events'', JList []),
                   (''mermaid_syntax'', JString ''x'')])"
  "loads_examples timeline_text =
     Inr (JObject [(''mermaid_syntax'', JString ''x''), (''participants'', JList [])])"
  "loads_examples other_text = Inr (JObject [(''nodes'', JList []), (''edges'', JList [])])"
  "loads_examples mixed_text =
     Inr (JObject [(''participants'', JInt 1), (''events'', JList []),
                   (''mermaid_syntax'', JString ''x'')])"
  "loads_examples ''42'' = Inr (JInt 42)"
  by (simp_all add: loads_examples_def sequence_text_def timeline_text_def other_text_def
        mixed_text_def)

theorem validate_json_dispatch_witness:
  "validate_json loads_examples sequence_text
     = Inr (Some (JObject [(''participants'', JList []), (''events'', JList []),
                           (''mermaid_syntax'', JString ''x'')]))
   \<and> validate_json loads_examples timeline_text
     = Inr (Some (JObject [(''mermaid_syntax'', JString ''x''), (''participants'', JList [])]))
   \<and> validate_json loads_examples other_text = Inr None
   \<and> validate_json loads_examples mixed_text = Inr None"
proof -
  have 1: "loads_examples (extract_json sequence_text) =
     Inr (JObject [(''participants'', JList []), (''events'', JList []),
                   (''mermaid_syntax'', JString ''x'')])"
    by (simp only: extract_examples loads_examples_values)
  have 2: "loads_examples (extract_json timeline_text) =
     Inr (JObject [(''mermaid_syntax'', JString ''x''), (''participants'', JList [])])"
    by (simp only: extract_examples loads_examples_values)
  have 3: "loads_examples (extract_json other_text)
           = Inr (JObject [(''nodes'', JList []), (''edges'', JList [])])"
    by (simp only: extract_examples loads_examples_values)
  have 4: "loads_examples (extract_json mixed_text) =
     Inr (JObject [(''participants'', JInt 1), (''events'', JList []),
                   (''mermaid_syntax'', JString ''x'')])"
    by (simp only: extract_examples loads_examples_values)
  from validate_json_dispatch [of loads_examples sequence_text, OF 1]
    validate_json_dispatch [of loads_examples timeline_text, OF 2]
    validate_json_dispatch [of loads_examples other_text, OF 3]
    validate_json_dispatch [of loads_examples mixed_text, OF 4]
  show ?thesis by simp
qed

lemma missing_field_object:
  "missing_field fs (JObject kvs) = Inr (\<exists>f \<in> set fs. f \<notin> fst ` set kvs)"
  by (induction fs) auto

text \<open>On an object the schema tests raise nothing, and text the decoder rejects as
  invalid gives \<open>None\<close>: the exceptions of \<open>validate_json\<close> come from decoded values
  that are not objects and from the other exceptions of the decoder.\<close>

lemma validate_data_object: "\<exists>r. validate_data (JObject kvs) = Inr r"
proof -
  have get: "py_get (JObject kvs) key = Inr v \<Longrightarrow> is_list v \<Longrightarrow>
             \<exists>xs. py_bind (py_getitem (JObject kvs) key) py_iter = Inr xs" for key v
    by (cases v) (auto split: option.splits)
  have g: "\<exists>v. py_get (JObject kvs) key = Inr v" for key by simp
  show ?thesis
    unfolding validate_data_def missing_field_object
    using get [of "''nodes''"] get [of "''edges''"]
    by (auto simp del: py_get.simps py_getitem.simps split: if_splits)
       (auto split: option.splits)
qed

lemma validate_json_decoder_exception:
  assumes "loads (extract_json s) = Inl err" and "err \<noteq> JSONDecodeError"
  shows "validate_json loads s = Inl err"
  using assms by (simp add: validate_json_def)

lemma validate_json_object_or_undecodable:
  assumes "loads (extract_json s) = Inl JSONDecodeError
           \<or> (\<exists>kvs. loads (extract_json s) = Inr (JObject kvs))"
  shows "\<exists>r. validate_json loads s = Inr r"
  using assms validate_data_object by (auto simp: validate_json_def)

text \<open>
  C2 fails on the code. The text \<open>42\<close> has no fence and no brace, so it goes to the
  decoder as it is and decodes to the integer 42; \<open>'participants' in data\<close> then
  raises \<open>TypeError\<close>, which the \<open>except json.JSONDecodeError\<close> clause does not catch.
\<close>

theorem validate_json_number_raises:
  "extract_json ''42'' = ''42'' \<and> loads_examples ''42'' = Inr (JInt 42)
   \<and> validate_json loads_examples ''42'' = Inl TypeError"
  by (simp add: validate_json_def validate_data_def extract_examples loads_examples_values)


section \<open>The retrieval pipeline\<close>

lemma query_built:
  "vectorstore self = Some store \<Longrightarrow>
   query lib self q k f = Inr (similarity_search lib store q k f)"
  by (simp add: query_def)

lemma merge_queries_built:
  assumes "vectorstore self = Some store"
  shows "merge_queries lib self k qs acc
         = Inr (foldl add_doc acc (concat (map (\<lambda>q. similarity_search lib store q k None) qs)))"
  by (induction qs arbitrary: acc) (simp_all add: query_built [OF assms])

lemma architecture_context_built:
  assumes "vectorstore self = Some store"
  shows "\<exists>ctx. get_architecture_context lib self k = Inr ctx"
  by (simp add: get_architecture_context_def architecture_docs_def
        merge_queries_built [OF assms] split: prod.split)

section \<open>The overview stage\<close>

lemma parse_json_response_None_iff:
  "parse_json_response sv response = Inr None
   \<longleftrightarrow> (search_fenced response = None \<and> search_braces response = None)
       \<or> (\<exists>g. (search_fenced response = Some g
                 \<or> search_fenced response = None \<and> search_braces response = Some g)
               \<and> json_loads sv g = Inl JSONDecodeError)"
  by (auto simp: parse_json_response_def loads_or_none_def split: option.splits sum.splits)

text \<open>An exception of the decoder other than \<open>JSONDecodeError\<close> leaves
  \<open>_parse_json_response\<close>, and with it \<open>analyze_overview\<close>.\<close>

lemma parse_json_response_decoder_exception:
  assumes "search_fenced response = Some g
           \<or> search_fenced response = None \<and> search_braces response = Some g"
    and "json_loads sv g = Inl err" and "err \<noteq> JSONDecodeError"
  shows "parse_json_response sv response = Inl err"
  using assms by (auto simp: parse_json_response_def loads_or_none_def)

lemma analyze_overview_decoder_exception:
  assumes "repo_data self = Some rd"
    and "get_architecture_context lib (rag self) 8 = Inr ctx"
    and "parse_json_response sv (overview_response sv rd ctx) = Inl err"
  shows "analyze_overview lib sv self = Inl err"
  using assms by (simp add: analyze_overview_def Let_def)

text \<open>
  C8, amended. Let a repository be ingested and the index built. For every answer of
  the model in which no JSON text is found, or whose JSON text the decoder rejects with
  \<open>JSONDecodeError\<close> (the cases in which \<open>_parse_json_response\<close> returns \<open>None\<close>),
  \<open>analyze_overview\<close> raises nothing and returns (and stores) the dictionary with
  \<open>project_type\<close> and \<open>architecture_pattern\<close> equal to \<open>unknown\<close>, \<open>components\<close>
  equal to the empty list and \<open>raw_analysis\<close> equal to the raw answer, which is empty
  when the answer is.
\<close>

theorem analyze_overview_degrades:
  assumes "repo_data self = Some rd" and "vectorstore (rag self) = Some store"
  shows "\<exists>ctx. get_architecture_context lib (rag self) 8 = Inr ctx
          \<and> ((search_fenced (overview_response sv rd ctx) = None
                 \<and> search_braces (overview_response sv rd ctx) = None)
               \<or> (\<exists>g. (search_fenced (overview_response sv rd ctx) = Some g
                         \<or> search_fenced (overview_response sv rd ctx) = None
                           \<and> search_braces (overview_response sv rd ctx) = Some g)
                       \<and> json_loads sv g = Inl JSONDecodeError)
               \<longrightarrow> analyze_overview lib sv self
                     = Inr (fallback_overview (overview_response sv rd ctx),
                            self\<lparr>overview := Some (fallback_overview (overview_response sv rd ctx))\<rparr>)
                 \<and> py_get (fallback_overview (overview_response sv rd ctx)) ''project_type''
                     = Inr (JString ''unknown'')
                 \<and> py_get (fallback_overview (overview_response sv rd ctx)) ''architecture_pattern''
                     = Inr (JString ''unknown'')
                 \<and> py_get (fallback_overview (overview_response sv rd ctx)) ''components''
                     = Inr (JList [])
                 \<and> py_get (fallback_overview (overview_response sv rd ctx)) ''raw_analysis''
                     = Inr (JString (overview_response sv rd ctx)))"
proof -
  from architecture_context_built [OF assms(2)]
  obtain ctx where ctx: "get_architecture_context lib (rag self) 8 = Inr ctx" by blast
  have "parse_json_response sv (overview_response sv rd ctx) = Inr None
        \<Longrightarrow> analyze_overview lib sv self
            = Inr (fallback_overview (overview_response sv rd ctx),
                   self\<lparr>overview := Some (fallback_overview (overview_response sv rd ctx))\<rparr>)"
    using assms(1) ctx by (simp add: analyze_overview_def Let_def)
  then show ?thesis
    using ctx unfolding parse_json_response_None_iff [symmetric]
    by (auto simp: fallback_overview_def)
qed

theorem analyze_overview_degrades_witness:
  "map_sum id fst (analyze_overview example_library (example_services ''I cannot answer.'') example_agent)
   = Inr (fallback_overview ''I cannot answer.'')
   \<and> py_get (fallback_overview ''I cannot answer.'') ''raw_analysis''
     = Inr (JString ''I cannot answer.'')
   \<and> map_sum id fst (analyze_overview example_library (example_services ''{oops}'') example_agent)
     = Inr (fallback_overview ''{oops}'')"
proof -
  let ?sv = "example_services ''I cannot answer.''"
  let ?sw = "example_services ''{oops}''"
  have 1: "repo_data example_agent
           = Some \<lparr>name = ''demo'', full_name = ''acme/demo'', description = None,
                   language = None, files = example_files\<rparr>"
    by (simp add: example_agent_def)
  have 2: "vectorstore (rag example_agent) = Some example_store"
    by (simp add: example_agent_def)
  have r: "overview_response ?sv rd ctx = ''I cannot answer.''" for rd ctx
    by (simp add: overview_response_def example_services_def)
  have r': "overview_response ?sw rd ctx = ''{oops}''" for rd ctx
    by (simp add: overview_response_def example_services_def)
  have 3: "search_fenced ''I cannot answer.'' = None \<and> search_braces ''I cannot answer.'' = None"
    by (simp add: search_braces_def match_fenced_def)
  have 4: "search_fenced ''{oops}'' = None" "search_braces ''{oops}'' = Some ''{oops}''"
    "json_loads ?sw ''{oops}'' = Inl JSONDecodeError"
    by (simp_all add: search_braces_def match_fenced_def example_services_def
          loads_examples_def sequence_text_def timeline_text_def other_text_def mixed_text_def)
  from analyze_overview_degrades [OF 1 2, of example_library ?sv]
    analyze_overview_degrades [OF 1 2, of example_library ?sw]
  show ?thesis unfolding r r' using 3 4 by auto
qed

text \<open>The model answers with the empty text: no JSON text is found in it, and the
  \<open>raw_analysis\<close> of the result is empty.\<close>

theorem analyze_overview_empty_answer_counterexample:
  "parse_json_response (example_services []) [] = Inr None
   \<and> map_sum id fst (analyze_overview example_library (example_services []) example_agent)
     = Inr (fallback_overview [])
   \<and> py_get (fallback_overview []) ''raw_analysis'' = Inr (JString [])"
proof -
  have c: "\<exists>ctx. get_architecture_context example_library (rag example_agent) 8 = Inr ctx"
    by (rule architecture_context_built [of _ example_store]) (simp add: example_agent_def)
  have r: "overview_response (example_services []) rd ctx = []" for rd ctx
    by (simp add: overview_response_def example_services_def)
  have p: "parse_json_response (example_services []) [] = Inr None"
    by (simp add: parse_json_response_def search_braces_def)
  from c obtain ctx
    where "get_architecture_context example_library (rag example_agent) 8 = Inr ctx" by blast
  then have "map_sum id fst (analyze_overview example_library (example_services []) example_agent)
     = Inr (fallback_overview [])"
    by (simp add: analyze_overview_def example_agent_def r p Let_def)
  then show ?thesis using p by (simp add: fallback_overview_def)
qed

section \<open>Building the index\<close>

lemma file_documents_small:
  "length (content data) \<le> 1500 \<Longrightarrow> length (file_documents lib file_path data) = 1"
  by (simp add: file_documents_def Let_def)

lemma file_documents_empty:
  "file_documents lib file_path data = []
   \<longleftrightarrow> 1500 < length (content data) \<and> split_text lib (content data) = []"
  by (auto simp: file_documents_def Let_def enumerate_eq_zip)

lemma create_documents_empty:
  "create_documents lib fs = []
   \<longleftrightarrow> (\<forall>(file_path, data) \<in> set fs.
          1500 < length (content data) \<and> split_text lib (content data) = [])"
  by (auto simp: create_documents_def file_documents_empty)

text \<open>
  C6, amended. \<open>build_index\<close> fails (with \<open>ValueError\<close>) exactly when zero documents
  are produced from the mapping. That happens when \<open>files\<close> is empty, or when every
  file is longer than 1500 characters and the splitter returns no chunk for it; a file
  of at most 1500 characters, an empty file included, yields one document. Whenever at
  least one document is produced, \<open>build_index\<close> succeeds, stores the documents and
  returns their number.
\<close>

theorem build_index_empty_corpus:
  "(build_index lib self fs = Inl ValueError \<longleftrightarrow> create_documents lib fs = [])
   \<and> (create_documents lib fs = []
        \<longleftrightarrow> (\<forall>(file_path, data) \<in> set fs.
               1500 < length (content data) \<and> split_text lib (content data) = []))
   \<and> (\<forall>(file_path, data) \<in> set fs.
         length (content data) \<le> 1500 \<longrightarrow> length (file_documents lib file_path data) = 1)
   \<and> (create_documents lib fs \<noteq> []
        \<longrightarrow> build_index lib self fs
            = Inr (length (create_documents lib fs),
                   self\<lparr>vectorstore := Some (create_documents lib fs)\<rparr>))"
  using create_documents_empty [of lib fs]
  by (auto simp: build_index_def Let_def file_documents_small)

lemma create_example_files: "create_documents example_library example_files = example_store"
  by (simp add: create_documents_def file_documents_def example_library_def
        example_files_def example_store_def get_file_type_def type_mapping_def)

theorem build_index_empty_corpus_witness:
  "build_index example_library \<lparr>vectorstore = None\<rparr> [] = Inl ValueError
   \<and> build_index example_library \<lparr>vectorstore = None\<rparr> example_files
     = Inr (1, \<lparr>vectorstore = Some example_store\<rparr>)"
proof -
  have 1: "create_documents example_library [] = []" by (simp add: create_documents_def)
  have 2: "create_documents example_library example_files \<noteq> []"
    by (simp add: create_example_files example_store_def)
  from build_index_empty_corpus [of example_library "\<lparr>vectorstore = None\<rparr>" "[]"]
    build_index_empty_corpus [of example_library "\<lparr>vectorstore = None\<rparr>" example_files]
  show ?thesis using 1 2 by (simp add: create_example_files example_store_def)
qed

text \<open>A mapping whose only file is empty: every file is empty, and the index is
  built with one document.\<close>

theorem build_index_empty_file_counterexample:
  "empty_files \<noteq> [] \<and> list_all (\<lambda>(file_path, data). content data = []) empty_files
   \<and> build_index example_library \<lparr>vectorstore = None\<rparr> empty_files
     = Inr (1, \<lparr>vectorstore = Some
                 [\<lparr>page_content = [],
                   metadata = \<lparr>source = ''empty.py'', file_type = ''python'', doc_size = 0,
                               directory = ''.'', filename = ''empty.py'',
                               chunk_index = None, total_chunks = None\<rparr>\<rparr>]\<rparr>)"
  by (simp add: build_index_def create_documents_def file_documents_def example_library_def
        empty_files_def get_file_type_def type_mapping_def)


section \<open>The architecture context\<close>

lemma first_seen_subset: "set (first_seen ds) \<subseteq> set ds"
  by (induction ds rule: first_seen.induct) auto

lemma first_seen_distinct: "distinct (map (\<lambda>d. source (metadata d)) (first_seen ds))"
proof (induction ds rule: first_seen.induct)
  case 1
  then show ?case by simp
next
  case (2 d ds)
  have "set (first_seen (filter (\<lambda>d'. source (metadata d') \<noteq> source (metadata d)) ds))
        \<subseteq> {d' \<in> set ds. source (metadata d') \<noteq> source (metadata d)}"
    using first_seen_subset [of "filter (\<lambda>d'. source (metadata d') \<noteq> source (metadata d)) ds"]
    by simp
  with 2 show ?case by auto
qed

lemma foldl_add_doc:
  "fst (foldl add_doc (acc, set (map (\<lambda>d. source (metadata d)) acc)) rs)
   = acc @ first_seen (filter (\<lambda>d. source (metadata d) \<notin> set (map (\<lambda>d. source (metadata d)) acc)) rs)"
proof (induction rs arbitrary: acc)
  case Nil
  then show ?case by simp
next
  case (Cons r rs)
  let ?src = "\<lambda>d. source (metadata d)"
  show ?case
  proof (cases "?src r \<in> set (map ?src acc)")
    case True
    then have step: "add_doc (acc, set (map ?src acc)) r = (acc, set (map ?src acc))"
      by (simp add: add_doc_def)
    have "foldl add_doc (acc, set (map ?src acc)) (r # rs)
          = foldl add_doc (acc, set (map ?src acc)) rs"
      by (simp only: foldl_Cons step)
    moreover have "filter (\<lambda>d. ?src d \<notin> set (map ?src acc)) (r # rs)
                   = filter (\<lambda>d. ?src d \<notin> set (map ?src acc)) rs"
      using True by simp
    ultimately show ?thesis using Cons.IH [of acc] by (simp only:)
  next
    case False
    then have step: "add_doc (acc, set (map ?src acc)) r
                     = (acc @ [r], set (map ?src (acc @ [r])))"
      by (simp add: add_doc_def)
    have f: "filter (\<lambda>d'. ?src d' \<noteq> ?src r) (filter (\<lambda>d. ?src d \<notin> set (map ?src acc)) rs)
          = filter (\<lambda>d. ?src d \<notin> set (map ?src (acc @ [r]))) rs"
      by (auto intro: filter_cong)
    have "foldl add_doc (acc, set (map ?src acc)) (r # rs)
          = foldl add_doc (acc @ [r], set (map ?src (acc @ [r]))) rs"
      by (simp only: foldl_Cons step)
    then have "fst (foldl add_doc (acc, set (map ?src acc)) (r # rs))
          = (acc @ [r]) @ first_seen (filter (\<lambda>d. ?src d \<notin> set (map ?src (acc @ [r]))) rs)"
      using Cons.IH [of "acc @ [r]"] by (simp only:)
    moreover have "first_seen (filter (\<lambda>d. ?src d \<notin> set (map ?src acc)) (r # rs))
          = r # first_seen (filter (\<lambda>d. ?src d \<notin> set (map ?src (acc @ [r]))) rs)"
      using False f by simp
    ultimately show ?thesis by simp
  qed
qed

lemma merged_docs_first_seen:
  "fst (foldl add_doc ([], {}) rs) = first_seen rs"
  using foldl_add_doc [of "[]" rs] by simp

text \<open>
  C9. On a built index and for every \<open>k\<close>, the documents \<open>get_architecture_context\<close>
  formats are the results of the six fixed queries, merged in order and deduplicated
  by source in first-seen order, cut to the first 15: no two of them share a source,
  and there are at most 15.
\<close>

theorem architecture_context_dedup:
  assumes "vectorstore self = Some store"
  shows "\<exists>docs. architecture_docs lib self k = Inr docs
           \<and> get_architecture_context lib self k = Inr (str_join ''\<newline>'' (map format_doc docs))
           \<and> docs = take 15 (first_seen
                       (concat (map (\<lambda>q. similarity_search lib store q k None) queries)))
           \<and> distinct (map (\<lambda>d. source (metadata d)) docs)
           \<and> length docs \<le> 15"
proof -
  let ?rs = "concat (map (\<lambda>q. similarity_search lib store q k None) queries)"
  have docs: "architecture_docs lib self k = Inr (take 15 (first_seen ?rs))"
    using merged_docs_first_seen [of ?rs]
    by (cases "foldl add_doc ([], {}) ?rs")
       (simp add: architecture_docs_def merge_queries_built [OF assms])
  have "distinct (map (\<lambda>d. source (metadata d)) (take 15 (first_seen ?rs)))"
    using first_seen_distinct [of ?rs] by (simp add: take_map [symmetric] distinct_take)
  with docs show ?thesis by (simp add: get_architecture_context_def)
qed

theorem architecture_context_dedup_witness:
  "get_architecture_context example_library \<lparr>vectorstore = Some (example_store @ example_store)\<rparr> 10
   = Inr ''=== main.py ===\<newline>class Foo: pass\<newline>''"
proof -
  let ?self = "\<lparr>vectorstore = Some (example_store @ example_store)\<rparr>"
  have 1: "vectorstore ?self = Some (example_store @ example_store)" by simp
  from architecture_context_dedup [OF 1, of example_library 10]
  show ?thesis
    by (simp add: queries_def similarity_search_def example_library_def example_store_def
          format_doc_def)
qed



section \<open>The prompt of a diagram\<close>

lemma attach_meta_dict:
  "(\<forall>d. diagram_data = Some d \<longrightarrow> is_dict d) \<Longrightarrow>
   \<not> isl (attach_meta diagram_spec diagram_type diagram_data)"
proof (cases diagram_data)
  case None
  then show ?thesis by (simp add: attach_meta_def)
next
  case (Some d)
  assume "\<forall>d. diagram_data = Some d \<longrightarrow> is_dict d"
  with Some obtain kvs where "d = JObject kvs" by (cases d) auto
  with Some show ?thesis by (simp add: attach_meta_def)
qed

text \<open>
  C10. Let the index be built and a repository ingested. A specification without a
  \<open>type\<close> key has the type \<open>Sequence\<close>. For every specification whose type is neither
  \<open>Mindmap\<close> nor \<open>Graph\<close> (so for \<open>Timeline\<close> and for every unrecognized string as
  for \<open>Sequence\<close> itself) the prompt is the Sequence prompt of the specification, the
  one the type \<open>Sequence\<close> gives; the result is the parsed answer to that prompt with
  \<open>_meta\<close> attached, and no exception is raised when the answer parses to nothing or to
  an object (an exception of the decoder other than \<open>JSONDecodeError\<close> is not caught).
\<close>

theorem generate_diagram_data_falls_through:
  assumes "vectorstore (rag self) = Some store" and "repo_data self = Some rd"
  shows "(map_of diagram_spec ''type'' = None
            \<longrightarrow> spec_get diagram_spec ''type'' ''Sequence'' = ''Sequence'')
       \<and> (spec_get diagram_spec ''type'' ''Sequence'' \<noteq> ''Mindmap''
          \<and> spec_get diagram_spec ''type'' ''Sequence'' \<noteq> ''Graph''
          \<longrightarrow> (let diagram_type = spec_get diagram_spec ''type'' ''Sequence'';
                    focus_area = spec_get diagram_spec ''generation_prompt''
                                   (spec_get diagram_spec ''title'' []);
                    code_context = diagram_code_context
                                     (similarity_search lib store focus_area 10 None);
                    prompt = SEQUENCE_FROM_REPO_PROMPT sv (full_name rd) focus_area
                               (take 10000 code_context);
                    parsed = parse_json_response sv (llm sv prompt (ANALYSIS_SYSTEM_PROMPT sv))
                in diagram_prompt lib sv self diagram_type focus_area code_context = Inr prompt
                 \<and> diagram_prompt lib sv self diagram_type focus_area code_context
                     = diagram_prompt lib sv self ''Sequence'' focus_area code_context
                 \<and> generate_diagram_data lib sv self diagram_spec
                     = py_bind parsed (attach_meta diagram_spec diagram_type)
                 \<and> ((\<exists>diagram_data. parsed = Inr diagram_data
                         \<and> (\<forall>d. diagram_data = Some d \<longrightarrow> is_dict d))
                      \<longrightarrow> \<not> isl (generate_diagram_data lib sv self diagram_spec))))"
proof -
  have a: "map_of diagram_spec ''type'' = None
           \<longrightarrow> spec_get diagram_spec ''type'' ''Sequence'' = ''Sequence''"
    by (simp add: spec_get_def)
  have p: "t \<noteq> ''Mindmap'' \<Longrightarrow> t \<noteq> ''Graph'' \<Longrightarrow>
           diagram_prompt lib sv self t f c
           = Inr (SEQUENCE_FROM_REPO_PROMPT sv (full_name rd) f (take 10000 c))" for t f c
    using assms(2) by (simp add: diagram_prompt_def)
  have q: "query lib (rag self) f 10 None = Inr (similarity_search lib store f 10 None)" for f
    using assms(1) by (rule query_built)
  show ?thesis
    using a attach_meta_dict
    by (auto simp: Let_def generate_diagram_data_def p q)
qed

theorem generate_diagram_data_falls_through_witness:
  "generate_diagram_data example_library (example_services ''no diagram'') example_agent
     [(''type'', ''Timeline''), (''title'', ''Releases'')] = Inr None
   \<and> diagram_prompt example_library (example_services ''no diagram'') example_agent
       ''Timeline'' ''Releases'' ''context''
     = Inr ''sequence: acme/demoReleasescontext''
   \<and> generate_diagram_data example_library (example_services ''no diagram'') example_agent
     [(''title'', ''Releases'')] = Inr None"
proof -
  let ?sv = "example_services ''no diagram''"
  let ?rd = "\<lparr>name = ''demo'', full_name = ''acme/demo'', description = None,
              language = None, files = example_files\<rparr>"
  have 1: "vectorstore (rag example_agent) = Some example_store"
    by (simp add: example_agent_def)
  have 2: "repo_data example_agent = Some ?rd"
    by (simp add: example_agent_def)
  have 3: "parse_json_response ?sv ''no diagram'' = Inr None"
    by (simp add: parse_json_response_def search_braces_def match_fenced_def)
  have 4: "llm ?sv p s = ''no diagram''" for p s
    by (simp add: example_services_def)
  have 5: "diagram_prompt example_library ?sv example_agent ''Timeline'' ''Releases'' ''context''
     = Inr ''sequence: acme/demoReleasescontext''"
    by (simp add: diagram_prompt_def example_agent_def example_services_def)
  from generate_diagram_data_falls_through
         [OF 1 2, of "[(''type'', ''Timeline''), (''title'', ''Releases'')]" example_library ?sv]
    generate_diagram_data_falls_through
         [OF 1 2, of "[(''title'', ''Releases'')]" example_library ?sv]
  show ?thesis
    by (simp add: Let_def spec_get_def 3 4 5 attach_meta_def)
qed


section \<open>The context of one file\<close>

lemma length_str_join:
  "length (str_join sep xs) = sum_list (map length xs) + (length xs - 1) * length sep"
  by (induction sep xs rule: str_join.induct) simp_all

lemma length_str_join_less:
  assumes "sum_list (map length xs) \<le> sum_list (map length ys)"
    and "0 < length xs" and "length xs < length ys" and "sep \<noteq> []"
  shows "length (str_join sep xs) < length (str_join sep ys)"
proof -
  from assms(2,3) have "length xs - 1 < length ys - 1" by arith
  moreover from assms(4) have "0 < length sep" by simp
  ultimately have "(length xs - 1) * length sep < (length ys - 1) * length sep"
    by (rule mult_strict_right_mono)
  with assms(1) show ?thesis unfolding length_str_join by (rule add_le_less_mono)
qed

lemma sum_list_map_mset:
  fixes f :: "'a \<Rightarrow> nat"
  shows "mset xs = mset ys \<Longrightarrow> sum_list (map f xs) = sum_list (map f ys)"
  by (metis mset_map sum_mset_sum_list)

lemma sum_list_map_take:
  fixes f :: "'a \<Rightarrow> nat"
  shows "sum_list (map f (take n xs)) \<le> sum_list (map f xs)"
proof -
  have "sum_list (map f xs) = sum_list (map f (take n xs)) + sum_list (map f (drop n xs))"
    by (metis append_take_drop_id map_append sum_list_append)
  then show ?thesis by simp
qed

lemma file_documents_source:
  "d \<in> set (file_documents lib p data) \<Longrightarrow> source (metadata d) = p"
  by (auto simp: file_documents_def Let_def enumerate_eq_zip split: if_splits)

lemma filter_source_file_documents:
  "filter (\<lambda>d. source (metadata d) = path) (file_documents lib p data)
   = (if p = path then file_documents lib p data else [])"
  using file_documents_source [of _ lib p data]
  by (auto simp: filter_empty_conv filter_id_conv)

lemma filter_source_absent:
  "path \<notin> fst ` set fs \<Longrightarrow>
   filter (\<lambda>d. source (metadata d) = path) (create_documents lib fs) = []"
  by (induction fs) (auto simp: create_documents_def filter_source_file_documents)

lemma filter_source_create_documents:
  assumes "distinct (map fst fs)" and "(path, data) \<in> set fs"
  shows "filter (\<lambda>d. source (metadata d) = path) (create_documents lib fs)
         = file_documents lib path data"
  using assms
proof (induction fs)
  case Nil
  then show ?case by simp
next
  case (Cons x fs)
  obtain p d where x: "x = (p, d)" by (cases x)
  have cd: "create_documents lib (x # fs) = file_documents lib p d @ create_documents lib fs"
    by (simp add: create_documents_def x)
  show ?case
  proof (cases "p = path")
    case True
    with Cons.prems x have "path \<notin> fst ` set fs" by auto
    moreover from Cons.prems x True this have "d = data" by force
    ultimately show ?thesis
      using True by (simp add: cd filter_source_file_documents filter_source_absent)
  next
    case False
    with Cons.prems x have "(path, data) \<in> set fs" "distinct (map fst fs)" by auto
    with Cons.IH False show ?thesis
      by (simp add: cd filter_source_file_documents)
  qed
qed

lemma file_documents_chunks:
  assumes "1500 < length (content data)"
  shows "map page_content (file_documents lib p data) = split_text lib (content data)"
    and "map chunk_key (file_documents lib p data)
         = [0..<length (split_text lib (content data))]"
proof -
  let ?cs = "split_text lib (content data)"
  have z: "length [0..<length ?cs] = length ?cs" by simp
  show "map page_content (file_documents lib p data) = ?cs"
    using assms map_snd_zip [OF z]
    by (simp add: file_documents_def Let_def enumerate_eq_zip comp_def case_prod_beta)
  show "map chunk_key (file_documents lib p data) = [0..<length ?cs]"
    using assms map_fst_zip [OF z]
    by (simp add: file_documents_def Let_def enumerate_eq_zip comp_def case_prod_beta
          chunk_key_def)
qed

lemma get_file_context_results:
  assumes "vectorstore self = Some (create_documents lib fs)"
    and "distinct (map fst fs)" and "(path, data) \<in> set fs"
  shows "get_file_context lib self path
         = Inr (str_join ''\<newline>''
                  (map page_content
                     (sort_key chunk_key
                        (take 20 (rank lib (''file: '' @ path) (file_documents lib path data))))))"
  using assms(1) filter_source_create_documents [OF assms(2,3), of lib]
  by (simp add: get_file_context_def query_def similarity_search_def)

text \<open>Up to 20 chunks the file comes back whole and in order, whatever the ranking.\<close>

lemma get_file_context_small:
  assumes built: "vectorstore self = Some (create_documents lib fs)"
    and keys: "distinct (map fst fs)" and member: "(path, data) \<in> set fs"
    and long: "1500 < length (content data)"
    and perm: "\<And>q ds. mset (rank lib q ds) = mset ds"
    and few: "length (split_text lib (content data)) \<le> 20"
  shows "get_file_context lib self path
         = Inr (str_join ''\<newline>'' (split_text lib (content data)))"
proof -
  let ?cd = "file_documents lib path data"
  let ?r = "rank lib (''file: '' @ path) ?cd"
  note ch = file_documents_chunks [OF long, of lib path]
  have len: "length ?cd = length (split_text lib (content data))"
    using ch(1) by (metis length_map)
  have "length ?r = length ?cd" using perm by (rule mset_eq_length)
  with few len have t: "take 20 ?r = ?r" by simp
  have "distinct (map chunk_key ?cd)" unfolding ch(2) by simp
  then have inj: "inj_on chunk_key (set ?cd)" by (simp add: distinct_map)
  have "set ?r = set ?cd" using perm by (rule mset_eq_setD)
  with inj have inj': "inj_on chunk_key (set ?r)" by simp
  have "sorted (map chunk_key ?cd)" unfolding ch(2) by simp
  with perm inj' have "sort_key chunk_key ?r = ?cd" by (intro sort_key_inj_key_eq)
  then show ?thesis
    using get_file_context_results [OF built keys member] t ch(1) by simp
qed

text \<open>Beyond 20 chunks the result holds 20 of them: it is shorter than the chunks of
  the file joined in order.\<close>

lemma get_file_context_large:
  assumes built: "vectorstore self = Some (create_documents lib fs)"
    and keys: "distinct (map fst fs)" and member: "(path, data) \<in> set fs"
    and long: "1500 < length (content data)"
    and perm: "\<And>q ds. mset (rank lib q ds) = mset ds"
    and many: "20 < length (split_text lib (content data))"
  shows "\<exists>out. get_file_context lib self path = Inr out
           \<and> length out < length (str_join ''\<newline>'' (split_text lib (content data)))"
proof -
  let ?cs = "split_text lib (content data)"
  let ?cd = "file_documents lib path data"
  let ?r = "rank lib (''file: '' @ path) ?cd"
  let ?s = "sort_key chunk_key (take 20 ?r)"
  let ?f = "\<lambda>d. length (page_content d)"
  note ch = file_documents_chunks [OF long, of lib path]
  have len: "length ?cd = length ?cs" using ch(1) by (metis length_map)
  have "length ?r = length ?cd" using perm by (rule mset_eq_length)
  with many len have l20: "length ?s = 20" by simp
  have "sum_list (map ?f ?s) = sum_list (map ?f (take 20 ?r))"
    by (rule sum_list_map_mset) simp
  also have "\<dots> \<le> sum_list (map ?f ?r)" by (rule sum_list_map_take)
  also have "\<dots> = sum_list (map ?f ?cd)" using perm by (rule sum_list_map_mset)
  also have "\<dots> = sum_list (map length (map page_content ?cd))" by (simp add: comp_def)
  also have "\<dots> = sum_list (map length ?cs)" by (simp only: ch(1))
  finally have "sum_list (map length (map page_content ?s)) \<le> sum_list (map length ?cs)"
    by (simp add: comp_def)
  moreover have "0 < length (map page_content ?s)" "length (map page_content ?s) < length ?cs"
    using l20 many by simp_all
  ultimately have "length (str_join ''\<newline>'' (map page_content ?s))
                   < length (str_join ''\<newline>'' ?cs)"
    by (intro length_str_join_less) simp_all
  then show ?thesis
    using get_file_context_results [OF built keys member] by simp
qed


lemma window_split_replicate:
  "window_split (replicate n c)
   = (if n \<le> 1500 then [replicate n c]
      else replicate 1500 c # window_split (replicate (n - 1300) c))"
  by (subst window_split.simps) simp

lemma big_content_chunks: "length (split_text example_library big_content) = 21"
  by (simp add: example_library_def big_content_def window_split_replicate)

text \<open>
  C7 fails on the code. A file of 26500 characters is cut into 21 chunks with
  \<open>chunk_index\<close> 0 to 20 and indexed; \<open>get_file_context\<close> asks the store for 20
  results, so its result holds 20 of the 21 chunks and is shorter than the chunks of
  the file joined in order.
\<close>

theorem get_file_context_drops_chunks:
  "build_index example_library \<lparr>vectorstore = None\<rparr> big_files
     = Inr (21, \<lparr>vectorstore = Some (create_documents example_library big_files)\<rparr>)
   \<and> length (split_text example_library big_content) = 21
   \<and> (\<exists>out. get_file_context example_library
                \<lparr>vectorstore = Some (create_documents example_library big_files)\<rparr> ''big.py''
              = Inr out
            \<and> length out
                < length (str_join ''\<newline>'' (split_text example_library big_content)))"
proof -
  let ?self = "\<lparr>vectorstore = Some (create_documents example_library big_files)\<rparr>"
  let ?data = "\<lparr>content = big_content, fsize = 26500\<rparr>"
  have long: "1500 < length (content ?data)" by (simp add: big_content_def)
  have docs: "create_documents example_library big_files
              = file_documents example_library ''big.py'' ?data"
    by (simp add: create_documents_def big_files_def)
  have "length (map page_content (file_documents example_library ''big.py'' ?data)) = 21"
    unfolding file_documents_chunks(1) [OF long, of example_library "''big.py''"]
    using big_content_chunks by simp
  then have n: "length (file_documents example_library ''big.py'' ?data) = 21"
    by (simp only: length_map)
  then have ne: "file_documents example_library ''big.py'' ?data \<noteq> []"
    by auto
  have b: "build_index example_library \<lparr>vectorstore = None\<rparr> big_files = Inr (21, ?self)"
    unfolding build_index_def Let_def docs [symmetric]
    using n ne unfolding docs [symmetric] by simp
  have 1: "vectorstore ?self = Some (create_documents example_library big_files)" by simp
  have 2: "distinct (map fst big_files)" by (simp add: big_files_def)
  have 3: "(''big.py'', ?data) \<in> set big_files" by (simp add: big_files_def)
  have 4: "mset (rank example_library q ds) = mset ds" for q ds
    by (simp add: example_library_def)
  have 5: "20 < length (split_text example_library (content ?data))"
    using big_content_chunks by simp
  from get_file_context_large [OF 1 2 3 long 4 5] b big_content_chunks
  show ?thesis by simp
qed


end
